theory Spec2Isabelle
  imports Main "HOL-Library.Sublist"
begin

section \<open>JavaScript values, completions and promises\<close>

text \<open>
  A call either returns a value, throws a value, or never comes back. For an awaited
  promise the three cases are: fulfilled, rejected, never settled.
\<close>

datatype ('e, 'a) outcome = Returns 'a | Throws 'e | Never

text \<open>The functions that \<open>initialize.js\<close> defines itself and stores in the handler table.\<close>

datatype ownfn = NoOp | AuthFn | AnalyticsFn | InitErrorFn

text \<open>
  The values the module handles. \<open>JFun n\<close> is a function (or class) that comes from outside
  the module, known by a name; what calling it does is given by the collaborators below.
  \<open>JPromise p\<close> is a promise together with the way it settles. An object is the list of its
  own properties in the order they were written; a later binding of a key wins.
\<close>

datatype jsval =
    JUndefined
  | JNull
  | JBool bool
  | JNum int
  | JStr string
  | JFun string
  | JOwn ownfn
  | JObj "(string \<times> jsval) list"
  | JPromise "(jsval, jsval) outcome"

type_synonym completion = "(jsval, jsval) outcome"

fun truthy :: "jsval \<Rightarrow> bool" where
  "truthy JUndefined = False"
| "truthy JNull = False"
| "truthy (JBool b) = b"
| "truthy (JNum n) = (n \<noteq> 0)"
| "truthy (JStr s) = (s \<noteq> [])"
| "truthy (JFun n) = True"
| "truthy (JOwn f) = True"
| "truthy (JObj fs) = True"
| "truthy (JPromise p) = True"

fun nullish :: "jsval \<Rightarrow> bool" where
  "nullish JUndefined = True"
| "nullish JNull = True"
| "nullish v = False"

text \<open>The error the runtime throws when a property of \<open>undefined\<close>/\<open>null\<close> is read, when a
  non-function is called, and when \<open>undefined\<close>/\<open>null\<close> is destructured.\<close>

definition typeError :: jsval where
  "typeError = JObj [(''name'', JStr ''TypeError'')]"

text \<open>\<open>v.k\<close> for a value that is not \<open>undefined\<close>/\<open>null\<close>: the last binding of \<open>k\<close> in an
  object, \<open>undefined\<close> when the key is absent or the value is a primitive.\<close>

fun readProp :: "jsval \<Rightarrow> string \<Rightarrow> jsval" where
  "readProp (JObj fs) k = (case map_of (rev fs) k of Some v \<Rightarrow> v | None \<Rightarrow> JUndefined)"
| "readProp v k = JUndefined"

definition getProp :: "jsval \<Rightarrow> string \<Rightarrow> completion" where
  "getProp v k = (if nullish v then Throws typeError else Returns (readProp v k))"

text \<open>The own enumerable properties that \<open>...v\<close> copies into an object literal; nothing for
  \<open>undefined\<close>, \<open>null\<close> and the primitives whose keys this module never reads.\<close>

fun ownProps :: "jsval \<Rightarrow> (string \<times> jsval) list" where
  "ownProps (JObj fs) = fs"
| "ownProps v = []"

text \<open>A parameter default \<open>x = d\<close> applies when the value is \<open>undefined\<close>, and only then.\<close>

definition dflt :: "jsval \<Rightarrow> jsval \<Rightarrow> jsval" where
  "dflt v d = (if v = JUndefined then d else v)"

text \<open>The \<open>i\<close>-th argument of a call; a missing argument is \<open>undefined\<close>.\<close>

definition arg :: "nat \<Rightarrow> jsval list \<Rightarrow> jsval" where
  "arg i args = (if i < length args then args ! i else JUndefined)"

text \<open>\<open>await v\<close>: the settlement of a promise, the value itself otherwise. A promise is never
  fulfilled with another promise, so one step is enough.\<close>

fun settle :: "jsval \<Rightarrow> completion" where
  "settle (JPromise p) = p"
| "settle v = Returns v"

section \<open>The observable trace and the program monad\<close>

text \<open>
  What the module does to the outside is recorded in order: every \<open>publish\<close>, every call of a
  collaborator function (\<open>Call\<close> when it starts, \<open>Returned\<close> when it comes back
  without throwing), every call of a handler of the table (\<open>Invoke\<close>, logged when the
  handler value is a function and is called) and the return of the \<open>await\<close> on it
  (\<open>Resolved\<close>). The state of the collaborators themselves is the parameter \<open>'w\<close>.
\<close>

datatype event =
    Publish string "jsval option"
  | Call string "jsval list"
  | Returned string
  | Invoke string "jsval list"
  | Resolved string

record 'w sys =
  trace :: "event list"
  ext :: 'w

type_synonym 'w prog = "'w sys \<Rightarrow> completion \<times> 'w sys"
type_synonym 'w extfun = "jsval list \<Rightarrow> 'w \<Rightarrow> completion \<times> 'w"

definition ret :: "jsval \<Rightarrow> 'w prog" where
  "ret v = (\<lambda>s. (Returns v, s))"

definition throw :: "jsval \<Rightarrow> 'w prog" where
  "throw e = (\<lambda>s. (Throws e, s))"

definition lift :: "completion \<Rightarrow> 'w prog" where
  "lift r = (\<lambda>s. (r, s))"

text \<open>Sequencing: the rest runs only when the first part returns.\<close>

definition andThen :: "'w prog \<Rightarrow> (jsval \<Rightarrow> 'w prog) \<Rightarrow> 'w prog" where
  "andThen m f = (\<lambda>s. case m s of
      (Returns v, s') \<Rightarrow> f v s'
    | (Throws e, s') \<Rightarrow> (Throws e, s')
    | (Never, s') \<Rightarrow> (Never, s'))"

text \<open>\<open>try { m } catch (error) { h error }\<close>.\<close>

definition tryCatch :: "'w prog \<Rightarrow> (jsval \<Rightarrow> 'w prog) \<Rightarrow> 'w prog" where
  "tryCatch m h = (\<lambda>s. case m s of
      (Throws e, s') \<Rightarrow> h e s'
    | (Returns v, s') \<Rightarrow> (Returns v, s')
    | (Never, s') \<Rightarrow> (Never, s'))"

definition emit :: "event \<Rightarrow> 'w prog" where
  "emit ev = (\<lambda>s. (Returns JUndefined, s\<lparr>trace := trace s @ [ev]\<rparr>))"

text \<open>A function from outside the module runs on the collaborators' state only.\<close>

definition foreign :: "'w extfun \<Rightarrow> jsval list \<Rightarrow> 'w prog" where
  "foreign f args = (\<lambda>s. case f args (ext s) of (r, w') \<Rightarrow> (r, s\<lparr>ext := w'\<rparr>))"

text \<open>A call of an imported collaborator function: logged, run, and logged again when it
  returns; its value is the value of the call.\<close>

definition external :: "string \<Rightarrow> 'w extfun \<Rightarrow> jsval list \<Rightarrow> 'w prog" where
  "external name f args =
     andThen (emit (Call name args)) (\<lambda>_.
     andThen (foreign f args) (\<lambda>v.
     andThen (emit (Returned name)) (\<lambda>_. ret v)))"

text \<open>A call of an imported accessor, which reads the collaborators' state and leaves it alone.\<close>

definition reader :: "('w \<Rightarrow> completion) \<Rightarrow> 'w prog" where
  "reader g = (\<lambda>s. (g (ext s), s))"

text \<open>\<open>await m\<close>.\<close>

definition await :: "'w prog \<Rightarrow> 'w prog" where
  "await m = andThen m (\<lambda>v. lift (settle v))"

text \<open>An \<open>async\<close> function returns a promise that settles the way its body completes.\<close>

definition async :: "'w prog \<Rightarrow> 'w prog" where
  "async body = (\<lambda>s. case body s of (r, s') \<Rightarrow> (Returns (JPromise r), s'))"

section \<open>The collaborators\<close>

text \<open>
  The modules \<open>./config\<close>, \<open>./logging\<close>, \<open>./analytics\<close>, \<open>./auth\<close> and \<open>./i18n\<close> are
  imported, not defined here: their functions are parameters. \<open>funs\<close> gives the behaviour of
  every other function value that reaches the module (the handlers a caller supplies), and
  \<open>locationHref\<close> is \<open>global.location.href\<close>.
\<close>

record 'w collab =
  getConfig :: "'w \<Rightarrow> completion"
  configureLogging :: "'w extfun"
  getLoggingService :: "'w \<Rightarrow> completion"
  logError :: "'w extfun"
  configureAnalytics :: "'w extfun"
  identifyAnonymousUser :: "'w extfun"
  identifyAuthenticatedUser :: "'w extfun"
  getAuthenticatedHttpClient :: "'w \<Rightarrow> completion"
  configureAuth :: "'w extfun"
  ensureAuthenticatedUser :: "'w extfun"
  fetchAuthenticatedUser :: "'w extfun"
  hydrateAuthenticatedUser :: "'w extfun"
  getAuthenticatedUser :: "'w \<Rightarrow> completion"
  configureI18n :: "'w extfun"
  locationHref :: "'w \<Rightarrow> jsval"
  funs :: "string \<Rightarrow> 'w extfun"

definition NewRelicLoggingService :: jsval where
  "NewRelicLoggingService = JFun ''NewRelicLoggingService''"

definition SegmentAnalyticsService :: jsval where
  "SegmentAnalyticsService = JFun ''SegmentAnalyticsService''"

text \<open>
  Modelled from the spec: \<open>publish(topic, payload?)\<close> of \<open>./pubSub\<close>, which is imported and
  absent from the sources. It hands the topic and the optional payload to the bus and
  returns; here the bus is the trace.
\<close>

definition publish :: "string \<Rightarrow> jsval option \<Rightarrow> 'w prog" where
  "publish topic payload = emit (Publish topic payload)"

section \<open>\<open>initialize.js\<close>\<close>

definition APP_TOPIC :: string where
  "APP_TOPIC = ''APP''"

definition APP_PUBSUB_INITIALIZED :: string where
  "APP_PUBSUB_INITIALIZED = APP_TOPIC @ ''.PUBSUB_INITIALIZED''"

definition APP_CONFIG_INITIALIZED :: string where
  "APP_CONFIG_INITIALIZED = APP_TOPIC @ ''.CONFIG_INITIALIZED''"

definition APP_AUTH_INITIALIZED :: string where
  "APP_AUTH_INITIALIZED = APP_TOPIC @ ''.AUTH_INITIALIZED''"

definition APP_I18N_INITIALIZED :: string where
  "APP_I18N_INITIALIZED = APP_TOPIC @ ''.I18N_INITIALIZED''"

definition APP_LOGGING_INITIALIZED :: string where
  "APP_LOGGING_INITIALIZED = APP_TOPIC @ ''.LOGGING_INITIALIZED''"

definition APP_ANALYTICS_INITIALIZED :: string where
  "APP_ANALYTICS_INITIALIZED = APP_TOPIC @ ''.ANALYTICS_INITIALIZED''"

definition APP_READY :: string where
  "APP_READY = APP_TOPIC @ ''.READY''"

definition APP_INIT_ERROR :: string where
  "APP_INIT_ERROR = APP_TOPIC @ ''.INIT_ERROR''"

text \<open>\<open>export async function initError(error) { logError(error); }\<close>\<close>

definition initError :: "'w collab \<Rightarrow> jsval list \<Rightarrow> 'w prog" where
  "initError c args =
     (let error = arg 0 args in
      async (andThen (external ''logError'' (logError c) [error]) (\<lambda>_. ret JUndefined)))"

text \<open>
  \<open>auth(requireUser, hydrateUser)\<close>. The promise that \<open>hydrateAuthenticatedUser()\<close> returns
  is dropped: the call is made, its value is not awaited.
\<close>

definition auth :: "'w collab \<Rightarrow> jsval list \<Rightarrow> 'w prog" where
  "auth c args =
     (let requireUser = arg 0 args; hydrateUser = arg 1 args in
      async (
        andThen
          (if truthy requireUser
           then await (andThen (reader (\<lambda>w. Returns (locationHref c w))) (\<lambda>href.
                  external ''ensureAuthenticatedUser'' (ensureAuthenticatedUser c) [href]))
           else await (external ''fetchAuthenticatedUser'' (fetchAuthenticatedUser c) []))
          (\<lambda>_.
        if truthy hydrateUser
        then andThen (reader (getAuthenticatedUser c)) (\<lambda>user.
               if user \<noteq> JNull
               then andThen
                      (external ''hydrateAuthenticatedUser'' (hydrateAuthenticatedUser c) [])
                      (\<lambda>_. ret JUndefined)
               else ret JUndefined)
        else ret JUndefined)))"

text \<open>\<open>analytics()\<close>.\<close>

definition analytics :: "'w collab \<Rightarrow> jsval list \<Rightarrow> 'w prog" where
  "analytics c args =
     async (
       andThen (reader (getAuthenticatedUser c)) (\<lambda>authenticatedUser.
       andThen (if truthy authenticatedUser
                then lift (getProp authenticatedUser ''userId'')
                else ret authenticatedUser) (\<lambda>cond.
       if truthy cond
       then andThen (lift (getProp authenticatedUser ''userId'')) (\<lambda>userId.
            andThen
              (external ''identifyAuthenticatedUser'' (identifyAuthenticatedUser c) [userId])
              (\<lambda>_. ret JUndefined))
       else andThen (external ''identifyAnonymousUser'' (identifyAnonymousUser c) [])
              (\<lambda>_. ret JUndefined))))"

text \<open>\<open>const noOp = async () => {};\<close>\<close>

definition noOp :: "jsval list \<Rightarrow> 'w prog" where
  "noOp args = async (ret JUndefined)"

definition applyOverrideHandlers :: "jsval \<Rightarrow> jsval" where
  "applyOverrideHandlers overrides =
     JObj ([(''pubSub'', JOwn NoOp),
            (''config'', JOwn NoOp),
            (''logging'', JOwn NoOp),
            (''auth'', JOwn AuthFn),
            (''analytics'', JOwn AnalyticsFn),
            (''i18n'', JOwn NoOp),
            (''ready'', JOwn NoOp),
            (''initError'', JOwn InitErrorFn)]
           @ ownProps overrides)"

text \<open>Calling the value stored under a key of the handler table: a function of the module,
  a function from outside, or something that is not a function at all.\<close>

definition invoke :: "'w collab \<Rightarrow> string \<Rightarrow> jsval \<Rightarrow> jsval list \<Rightarrow> 'w prog" where
  "invoke c k f args =
     (case f of
        JOwn NoOp \<Rightarrow> andThen (emit (Invoke k args)) (\<lambda>_. noOp args)
      | JOwn AuthFn \<Rightarrow> andThen (emit (Invoke k args)) (\<lambda>_. auth c args)
      | JOwn AnalyticsFn \<Rightarrow> andThen (emit (Invoke k args)) (\<lambda>_. analytics c args)
      | JOwn InitErrorFn \<Rightarrow> andThen (emit (Invoke k args)) (\<lambda>_. initError c args)
      | JFun n \<Rightarrow> andThen (emit (Invoke k args)) (\<lambda>_. foreign (funs c n) args)
      | _ \<Rightarrow> throw typeError)"

text \<open>\<open>await handlers.k(args)\<close>.\<close>

definition callHandler :: "'w collab \<Rightarrow> jsval \<Rightarrow> string \<Rightarrow> jsval list \<Rightarrow> 'w prog" where
  "callHandler c handlers k args =
     andThen (await (andThen (lift (getProp handlers k)) (\<lambda>f. invoke c k f args)))
       (\<lambda>_. emit (Resolved k))"

text \<open>\<open>getConfig().k\<close>.\<close>

definition configProp :: "'w collab \<Rightarrow> string \<Rightarrow> 'w prog" where
  "configProp c k = andThen (reader (getConfig c)) (\<lambda>cfg. lift (getProp cfg k))"

text \<open>The object literal passed to \<open>configureAuth\<close>, its properties evaluated in order.\<close>

definition authOptions :: "'w collab \<Rightarrow> 'w prog" where
  "authOptions c =
     andThen (reader (getLoggingService c)) (\<lambda>loggingService.
     andThen (configProp c ''BASE_URL'') (\<lambda>appBaseUrl.
     andThen (configProp c ''LMS_BASE_URL'') (\<lambda>lmsBaseUrl.
     andThen (configProp c ''LOGIN_URL'') (\<lambda>loginUrl.
     andThen (configProp c ''LOGIN_URL'') (\<lambda>logoutUrl.
     andThen (configProp c ''REFRESH_ACCESS_TOKEN_ENDPOINT'') (\<lambda>refreshAccessTokenEndpoint.
     andThen (configProp c ''ACCESS_TOKEN_COOKIE_NAME'') (\<lambda>accessTokenCookieName.
     andThen (configProp c ''CSRF_TOKEN_API_PATH'') (\<lambda>csrfTokenApiPath.
     ret (JObj [(''loggingService'', loggingService),
                (''appBaseUrl'', appBaseUrl),
                (''lmsBaseUrl'', lmsBaseUrl),
                (''loginUrl'', loginUrl),
                (''logoutUrl'', logoutUrl),
                (''refreshAccessTokenEndpoint'', refreshAccessTokenEndpoint),
                (''accessTokenCookieName'', accessTokenCookieName),
                (''csrfTokenApiPath'', csrfTokenApiPath)])))))))))"

text \<open>The body of the \<open>try\<close> block of \<open>initialize\<close>, statement by statement.\<close>

definition initSequence ::
  "'w collab \<Rightarrow> jsval \<Rightarrow> jsval \<Rightarrow> jsval \<Rightarrow> jsval \<Rightarrow> jsval \<Rightarrow> jsval \<Rightarrow> 'w prog" where
  "initSequence c loggingService analyticsService requireUser hydrateUser messages handlers =
     andThen (callHandler c handlers ''pubSub'' []) (\<lambda>_.
     andThen (publish APP_PUBSUB_INITIALIZED None) (\<lambda>_.

     andThen (callHandler c handlers ''config'' []) (\<lambda>_.
     andThen (publish APP_CONFIG_INITIALIZED None) (\<lambda>_.

     andThen (reader (getConfig c)) (\<lambda>config.
     andThen (external ''configureLogging'' (configureLogging c)
                [loggingService, JObj [(''config'', config)]]) (\<lambda>_.
     andThen (callHandler c handlers ''logging'' []) (\<lambda>_.
     andThen (publish APP_LOGGING_INITIALIZED None) (\<lambda>_.

     andThen (authOptions c) (\<lambda>options.
     andThen (external ''configureAuth'' (configureAuth c) [options]) (\<lambda>_.
     andThen (callHandler c handlers ''auth'' [requireUser, hydrateUser]) (\<lambda>_.
     andThen (publish APP_AUTH_INITIALIZED None) (\<lambda>_.

     andThen (reader (getConfig c)) (\<lambda>config.
     andThen (reader (getLoggingService c)) (\<lambda>logging.
     andThen (reader (getAuthenticatedHttpClient c)) (\<lambda>httpClient.
     andThen (external ''configureAnalytics'' (configureAnalytics c)
                [analyticsService,
                 JObj [(''config'', config), (''loggingService'', logging),
                       (''httpClient'', httpClient)]]) (\<lambda>_.
     andThen (callHandler c handlers ''analytics'' []) (\<lambda>_.
     andThen (publish APP_ANALYTICS_INITIALIZED None) (\<lambda>_.

     andThen (reader (getConfig c)) (\<lambda>config.
     andThen (reader (getLoggingService c)) (\<lambda>logging.
     andThen (external ''configureI18n'' (configureI18n c)
                [JObj [(''messages'', messages), (''config'', config),
                       (''loggingService'', logging)]]) (\<lambda>_.
     andThen (callHandler c handlers ''i18n'' []) (\<lambda>_.
     andThen (publish APP_I18N_INITIALIZED None) (\<lambda>_.

     andThen (callHandler c handlers ''ready'' []) (\<lambda>_.
     publish APP_READY None))))))))))))))))))))))))"

text \<open>The \<open>catch (error)\<close> block.\<close>

definition initCatch :: "'w collab \<Rightarrow> jsval \<Rightarrow> jsval \<Rightarrow> 'w prog" where
  "initCatch c handlers error =
     andThen (lift (getProp error ''isRedirecting'')) (\<lambda>isRedirecting.
     if \<not> truthy isRedirecting
     then andThen (callHandler c handlers ''initError'' [error]) (\<lambda>_.
          publish APP_INIT_ERROR (Some error))
     else ret JUndefined)"

text \<open>
  \<open>initialize(options)\<close>. Binding the destructured parameter fails on \<open>undefined\<close> and
  \<open>null\<close>, which rejects the promise of the async function before its body starts.
\<close>

definition initialize :: "'w collab \<Rightarrow> jsval list \<Rightarrow> 'w prog" where
  "initialize c args =
     (let options = arg 0 args in
      if nullish options then async (throw typeError)
      else
        let loggingService = dflt (readProp options ''loggingService'') NewRelicLoggingService;
            analyticsService = dflt (readProp options ''analyticsService'') SegmentAnalyticsService;
            requireUser = dflt (readProp options ''requireAuthenticatedUser'') (JBool False);
            hydrateUser = dflt (readProp options ''hydrateAuthenticatedUser'') (JBool False);
            messages = readProp options ''messages'';
            overrideHandlers = dflt (readProp options ''handlers'') (JObj []);
            handlers = applyOverrideHandlers overrideHandlers
        in async (
             andThen
               (tryCatch
                  (initSequence c loggingService analyticsService requireUser hydrateUser
                     messages handlers)
                  (initCatch c handlers))
               (\<lambda>_. ret JUndefined)))"

section \<open>Reading a run\<close>

text \<open>The events a run from \<open>s\<close> to \<open>s'\<close> has added to the trace.\<close>

definition newEvents :: "'w sys \<Rightarrow> 'w sys \<Rightarrow> event list" where
  "newEvents s s' = drop (length (trace s)) (trace s')"

definition published :: "event list \<Rightarrow> event list" where
  "published tr = filter (\<lambda>e. case e of Publish t p \<Rightarrow> True | _ \<Rightarrow> False) tr"

definition calls :: "event list \<Rightarrow> event list" where
  "calls tr = filter (\<lambda>e. case e of Call n a \<Rightarrow> True | _ \<Rightarrow> False) tr"

text \<open>\<open>precedes a b tr\<close>: some occurrence of \<open>a\<close> in \<open>tr\<close> has a \<open>b\<close> after it.\<close>

fun precedes :: "'a \<Rightarrow> 'a \<Rightarrow> 'a list \<Rightarrow> bool" where
  "precedes a b [] = False"
| "precedes a b (x # xs) = ((x = a \<and> b \<in> set xs) \<or> precedes a b xs)"

definition isReturns :: "completion \<Rightarrow> bool" where
  "isReturns r = (case r of Returns v \<Rightarrow> True | _ \<Rightarrow> False)"

text \<open>The bindings \<open>initialize\<close> destructures from its options, and its \<open>try\<close> block run
  with them.\<close>

definition handlersFor :: "jsval \<Rightarrow> jsval" where
  "handlersFor options = applyOverrideHandlers (dflt (readProp options ''handlers'') (JObj []))"

definition requireUserFor :: "jsval \<Rightarrow> jsval" where
  "requireUserFor options = dflt (readProp options ''requireAuthenticatedUser'') (JBool False)"

definition hydrateUserFor :: "jsval \<Rightarrow> jsval" where
  "hydrateUserFor options = dflt (readProp options ''hydrateAuthenticatedUser'') (JBool False)"

definition trySequence :: "'w collab \<Rightarrow> jsval \<Rightarrow> 'w prog" where
  "trySequence c options =
     initSequence c
       (dflt (readProp options ''loggingService'') NewRelicLoggingService)
       (dflt (readProp options ''analyticsService'') SegmentAnalyticsService)
       (requireUserFor options) (hydrateUserFor options)
       (readProp options ''messages'') (handlersFor options)"

text \<open>A value that can be called: a function of the module or one from outside.\<close>

definition callable :: "jsval \<Rightarrow> bool" where
  "callable f = (case f of JFun n \<Rightarrow> True | JOwn g \<Rightarrow> True | _ \<Rightarrow> False)"

subsection \<open>The phases\<close>

text \<open>
  The seven steps of the \<open>try\<close> block in the order the source writes them, each with the key
  of its handler in the table, the topic published after it, the arguments its handler gets
  and the collaborator call (if any) that precedes the handler.
\<close>

datatype phase = PubSub | Config | Logging | Auth | Analytics | I18n | Ready

definition phaseOrder :: "phase list" where
  "phaseOrder = [PubSub, Config, Logging, Auth, Analytics, I18n, Ready]"

fun handlerKey :: "phase \<Rightarrow> string" where
  "handlerKey PubSub = ''pubSub''"
| "handlerKey Config = ''config''"
| "handlerKey Logging = ''logging''"
| "handlerKey Auth = ''auth''"
| "handlerKey Analytics = ''analytics''"
| "handlerKey I18n = ''i18n''"
| "handlerKey Ready = ''ready''"

fun completionTopic :: "phase \<Rightarrow> string" where
  "completionTopic PubSub = APP_PUBSUB_INITIALIZED"
| "completionTopic Config = APP_CONFIG_INITIALIZED"
| "completionTopic Logging = APP_LOGGING_INITIALIZED"
| "completionTopic Auth = APP_AUTH_INITIALIZED"
| "completionTopic Analytics = APP_ANALYTICS_INITIALIZED"
| "completionTopic I18n = APP_I18N_INITIALIZED"
| "completionTopic Ready = APP_READY"

fun wiringOf :: "phase \<Rightarrow> string option" where
  "wiringOf Logging = Some ''configureLogging''"
| "wiringOf Auth = Some ''configureAuth''"
| "wiringOf Analytics = Some ''configureAnalytics''"
| "wiringOf I18n = Some ''configureI18n''"
| "wiringOf p = None"

fun handlerArgs :: "jsval \<Rightarrow> jsval \<Rightarrow> phase \<Rightarrow> jsval list" where
  "handlerArgs requireUser hydrateUser Auth = [requireUser, hydrateUser]"
| "handlerArgs requireUser hydrateUser p = []"

text \<open>The completion events of a list of phases, and the phases that come before the first
  one whose handler did not resolve.\<close>

definition completions :: "phase list \<Rightarrow> event list" where
  "completions ps = map (\<lambda>p. Publish (completionTopic p) None) ps"

definition completed :: "event list \<Rightarrow> phase list" where
  "completed tr = takeWhile (\<lambda>p. Resolved (handlerKey p) \<in> set tr) phaseOrder"

subsection \<open>Control events\<close>

text \<open>
  The events that tell how far the sequence got: publishing, calling a handler of the table,
  the return of the await on it, and the return of the four \<open>configure\<close> calls.
\<close>

definition wiringCalls :: "string list" where
  "wiringCalls = [''configureLogging'', ''configureAuth'', ''configureAnalytics'', ''configureI18n'']"

fun isControl :: "event \<Rightarrow> bool" where
  "isControl (Publish t p) = True"
| "isControl (Call n a) = False"
| "isControl (Returned n) = (n \<in> set wiringCalls)"
| "isControl (Invoke k a) = True"
| "isControl (Resolved k) = True"

definition control :: "event list \<Rightarrow> event list" where
  "control tr = filter isControl tr"

fun isResolved :: "event \<Rightarrow> bool" where
  "isResolved (Resolved k) = True"
| "isResolved e = False"

definition callOnly :: "event \<Rightarrow> bool" where
  "callOnly e = (case e of Call n a \<Rightarrow> n \<notin> set wiringCalls
                         | Returned n \<Rightarrow> n \<notin> set wiringCalls
                         | _ \<Rightarrow> False)"

definition phaseEvents :: "jsval \<Rightarrow> jsval \<Rightarrow> phase \<Rightarrow> event list" where
  "phaseEvents requireUser hydrateUser p =
     (case wiringOf p of Some w \<Rightarrow> [Returned w] | None \<Rightarrow> []) @
     [Invoke (handlerKey p) (handlerArgs requireUser hydrateUser p),
      Resolved (handlerKey p),
      Publish (completionTopic p) None]"

text \<open>The control events of a \<open>try\<close> block that runs to its end.\<close>

definition expected :: "jsval \<Rightarrow> jsval \<Rightarrow> event list" where
  "expected requireUser hydrateUser =
     concat (map (phaseEvents requireUser hydrateUser) phaseOrder)"

text \<open>Every event a program adds to the trace satisfies \<open>P\<close>.\<close>

definition emits :: "(event \<Rightarrow> bool) \<Rightarrow> 'w prog \<Rightarrow> bool" where
  "emits P m = (\<forall>s r s'. m s = (r, s') \<longrightarrow> (\<exists>new. trace s' = trace s @ new \<and> list_all P new))"

text \<open>
  Where a sequence with control events \<open>exp\<close> may stop: after any prefix of them that does
  not end with the return of an await (the publish that follows cannot fail), and it returns
  exactly when nothing is left.
\<close>

definition goodStop :: "event list \<Rightarrow> completion \<Rightarrow> event list \<Rightarrow> bool" where
  "goodStop exp r t =
     (prefix t exp \<and> (isReturns r \<longleftrightarrow> t = exp) \<and> (t = [] \<or> \<not> isResolved (last t)))"

definition seqOK :: "event list \<Rightarrow> 'w prog \<Rightarrow> bool" where
  "seqOK exp m = (\<forall>s r s'. m s = (r, s') \<longrightarrow>
      (\<exists>new. trace s' = trace s @ new \<and> goodStop exp r (control new)))"

definition stops :: "jsval \<Rightarrow> jsval \<Rightarrow> event list list" where
  "stops rq hy = filter (\<lambda>t. t = [] \<or> \<not> isResolved (last t)) (prefixes (expected rq hy))"

section \<open>A concrete set of collaborators\<close>

text \<open>
  The collaborators' state is the session's user (\<open>null\<close> when nobody is logged in).
  \<open>ensureAuthenticatedUser\<close> rejects with a redirect error when there is no user, and the
  promise of \<open>hydrateAuthenticatedUser\<close> rejects. Callers can pass the functions
  \<open>rejects\<close>, \<open>throwsNull\<close>, \<open>hangs\<close> and (any other name) one that resolves.
\<close>

definition demoConfig :: jsval where
  "demoConfig = JObj [(''BASE_URL'', JStr ''https://app.test''),
                      (''LMS_BASE_URL'', JStr ''https://lms.test''),
                      (''LOGIN_URL'', JStr ''https://lms.test/login''),
                      (''LOGOUT_URL'', JStr ''https://lms.test/logout'')]"

definition redirectError :: jsval where
  "redirectError = JObj [(''message'', JStr ''redirecting''), (''isRedirecting'', JBool True)]"

definition demoUser :: jsval where
  "demoUser = JObj [(''userId'', JNum 7), (''username'', JStr ''ada'')]"

definition demoFuns :: "string \<Rightarrow> jsval extfun" where
  "demoFuns n =
     (if n = ''rejects'' then (\<lambda>a w. (Returns (JPromise (Throws (JStr ''boom''))), w))
      else if n = ''throwsNull'' then (\<lambda>a w. (Throws JNull, w))
      else if n = ''hangs'' then (\<lambda>a w. (Returns (JPromise Never), w))
      else (\<lambda>a w. (Returns (JPromise (Returns JUndefined)), w)))"

definition demoCollab :: "jsval collab" where
  "demoCollab = \<lparr>
     getConfig = (\<lambda>w. Returns demoConfig),
     configureLogging = (\<lambda>a w. (Returns JUndefined, w)),
     getLoggingService = (\<lambda>w. Returns (JStr ''logger'')),
     logError = (\<lambda>a w. (Returns JUndefined, w)),
     configureAnalytics = (\<lambda>a w. (Returns JUndefined, w)),
     identifyAnonymousUser = (\<lambda>a w. (Returns JUndefined, w)),
     identifyAuthenticatedUser = (\<lambda>a w. (Returns JUndefined, w)),
     getAuthenticatedHttpClient = (\<lambda>w. Returns (JStr ''client'')),
     configureAuth = (\<lambda>a w. (Returns JUndefined, w)),
     ensureAuthenticatedUser =
       (\<lambda>a w. if w = JNull then (Returns (JPromise (Throws redirectError)), w)
              else (Returns (JPromise (Returns JUndefined)), w)),
     fetchAuthenticatedUser = (\<lambda>a w. (Returns (JPromise (Returns JUndefined)), w)),
     hydrateAuthenticatedUser =
       (\<lambda>a w. (Returns (JPromise (Throws (JStr ''hydration failed''))), w)),
     getAuthenticatedUser = (\<lambda>w. Returns w),
     configureI18n = (\<lambda>a w. (Returns JUndefined, w)),
     locationHref = (\<lambda>w. JStr ''https://app.test/page''),
     funs = demoFuns \<rparr>"

definition start :: "jsval \<Rightarrow> jsval sys" where
  "start w = \<lparr>trace = [], ext = w\<rparr>"

text \<open>The same collaborators with a logging service whose \<open>logError\<close> throws.\<close>

definition brokenLogger :: "jsval collab" where
  "brokenLogger = demoCollab\<lparr>logError := (\<lambda>a w. (Throws (JStr ''logger down''), w))\<rparr>"

section \<open>Concrete runs\<close>

text \<open>Options records: a required login, handlers that fail in different ways.\<close>

definition requireUserOptions :: jsval where
  "requireUserOptions = JObj [(''requireAuthenticatedUser'', JBool True)]"

definition hydrateOptions :: jsval where
  "hydrateOptions = JObj [(''hydrateAuthenticatedUser'', JBool True)]"

definition failingAnalyticsOptions :: jsval where
  "failingAnalyticsOptions = JObj [(''handlers'', JObj [(''analytics'', JFun ''rejects'')])]"

definition nullThrowingOptions :: jsval where
  "nullThrowingOptions = JObj [(''handlers'', JObj [(''pubSub'', JFun ''throwsNull'')])]"

definition failingErrorHandlerOptions :: jsval where
  "failingErrorHandlerOptions =
     JObj [(''handlers'',
            JObj [(''analytics'', JFun ''rejects''), (''initError'', JFun ''rejects'')])]"

definition hangingReadyOptions :: jsval where
  "hangingReadyOptions = JObj [(''handlers'', JObj [(''ready'', JFun ''hangs'')])]"

text \<open>The traces these runs leave, built from the events of one phase that ran to its end
  (around what its handler did) and the four wiring calls with the concrete configuration.\<close>

definition ranPhase :: "phase \<Rightarrow> jsval list \<Rightarrow> event list \<Rightarrow> event list" where
  "ranPhase p args inner =
     Invoke (handlerKey p) args # inner @
     [Resolved (handlerKey p), Publish (completionTopic p) None]"

definition demoAuthOptions :: jsval where
  "demoAuthOptions =
     JObj [(''loggingService'', JStr ''logger''),
           (''appBaseUrl'', JStr ''https://app.test''),
           (''lmsBaseUrl'', JStr ''https://lms.test''),
           (''loginUrl'', JStr ''https://lms.test/login''),
           (''logoutUrl'', JStr ''https://lms.test/login''),
           (''refreshAccessTokenEndpoint'', JUndefined),
           (''accessTokenCookieName'', JUndefined),
           (''csrfTokenApiPath'', JUndefined)]"

definition wiredLogging :: "event list" where
  "wiredLogging =
     [Call ''configureLogging'' [NewRelicLoggingService, JObj [(''config'', demoConfig)]],
      Returned ''configureLogging'']"

definition wiredAuth :: "event list" where
  "wiredAuth = [Call ''configureAuth'' [demoAuthOptions], Returned ''configureAuth'']"

definition wiredAnalytics :: "event list" where
  "wiredAnalytics =
     [Call ''configureAnalytics''
        [SegmentAnalyticsService,
         JObj [(''config'', demoConfig), (''loggingService'', JStr ''logger''),
               (''httpClient'', JStr ''client'')]],
      Returned ''configureAnalytics'']"

definition wiredI18n :: "event list" where
  "wiredI18n =
     [Call ''configureI18n''
        [JObj [(''messages'', JUndefined), (''config'', demoConfig),
               (''loggingService'', JStr ''logger'')]],
      Returned ''configureI18n'']"

definition fetched :: "event list" where
  "fetched = [Call ''fetchAuthenticatedUser'' [], Returned ''fetchAuthenticatedUser'']"

definition hydrated :: "event list" where
  "hydrated = [Call ''hydrateAuthenticatedUser'' [], Returned ''hydrateAuthenticatedUser'']"

definition identified :: "event list" where
  "identified =
     [Call ''identifyAuthenticatedUser'' [JNum 7], Returned ''identifyAuthenticatedUser'']"

definition untilAuth :: "event list" where
  "untilAuth =
     ranPhase PubSub [] [] @ ranPhase Config [] [] @
     wiredLogging @ ranPhase Logging [] [] @ wiredAuth"

definition untilAnalytics :: "event list" where
  "untilAnalytics =
     untilAuth @ ranPhase Auth [JBool False, JBool False] fetched @ wiredAnalytics"

definition afterAnalytics :: "event list" where
  "afterAnalytics = ranPhase Analytics [] identified @ wiredI18n @ ranPhase I18n [] []"

definition redirectTrace :: "event list" where
  "redirectTrace =
     untilAuth @
     [Invoke ''auth'' [JBool True, JBool False],
      Call ''ensureAuthenticatedUser'' [JStr ''https://app.test/page''],
      Returned ''ensureAuthenticatedUser'']"

definition failedAnalyticsTrace :: "event list" where
  "failedAnalyticsTrace = untilAnalytics @ [Invoke ''analytics'' []]"

definition reportedTrace :: "event list" where
  "reportedTrace =
     failedAnalyticsTrace @
     [Invoke ''initError'' [JStr ''boom''],
      Call ''logError'' [JStr ''boom''], Returned ''logError'',
      Resolved ''initError'',
      Publish APP_INIT_ERROR (Some (JStr ''boom''))]"

definition unreportedTrace :: "event list" where
  "unreportedTrace = failedAnalyticsTrace @ [Invoke ''initError'' [JStr ''boom'']]"

definition hangingTrace :: "event list" where
  "hangingTrace = untilAnalytics @ afterAnalytics @ [Invoke ''ready'' []]"

definition completeTrace :: "event list" where
  "completeTrace = untilAnalytics @ afterAnalytics @ ranPhase Ready [] []"

definition hydratedTrace :: "event list" where
  "hydratedTrace =
     untilAuth @ ranPhase Auth [JBool False, JBool True] (fetched @ hydrated) @
     wiredAnalytics @ afterAnalytics @ ranPhase Ready [] []"

section \<open>Predicates on the collaborators\<close>

text \<open>
  The collaborators of \<open>c\<close> with a \<open>hydrateAuthenticatedUser\<close> that is an async function:
  calling it does \<open>h\<close> to the collaborators' state and returns a promise, which settles
  as \<open>p\<close>.
\<close>

definition withHydration :: "'w collab \<Rightarrow> ('w \<Rightarrow> 'w) \<Rightarrow> completion \<Rightarrow> 'w collab" where
  "withHydration c h p =
     c\<lparr>hydrateAuthenticatedUser := (\<lambda>args w. (Returns (JPromise p), h w))\<rparr>"

text \<open>A function that returns (does not throw, does not hang) whatever it is called with,
  and an accessor that does so in every state.\<close>

definition returnsAlways :: "'w extfun \<Rightarrow> bool" where
  "returnsAlways f = (\<forall>args w. \<exists>v w'. f args w = (Returns v, w'))"

definition readsAlways :: "('w \<Rightarrow> completion) \<Rightarrow> bool" where
  "readsAlways g = (\<forall>w. \<exists>v. g w = Returns v)"

text \<open>No wiring step of the sequence can throw: the accessors return (the configuration
  is an object whose properties can be read) and the four \<open>configure\<close> calls return.\<close>

definition wiringOK :: "'w collab \<Rightarrow> bool" where
  "wiringOK c =
     ((\<forall>w. \<exists>cfg. getConfig c w = Returns cfg \<and> \<not> nullish cfg) \<and>
      readsAlways (getLoggingService c) \<and>
      readsAlways (getAuthenticatedHttpClient c) \<and>
      returnsAlways (configureLogging c) \<and>
      returnsAlways (configureAuth c) \<and>
      returnsAlways (configureAnalytics c) \<and>
      returnsAlways (configureI18n c))"

text \<open>Calling the value \<open>f\<close> as the handler \<open>k\<close> with \<open>args\<close> and awaiting the result
  comes back, in every state: \<open>f\<close> is a function and its promise is fulfilled.\<close>

definition handlerResolves :: "'w collab \<Rightarrow> string \<Rightarrow> jsval \<Rightarrow> jsval list \<Rightarrow> bool" where
  "handlerResolves c k f args =
     (\<forall>s. \<exists>v s'. await (invoke c k f args) s = (Returns v, s'))"

text \<open>A program that returns from every state.\<close>

definition runs :: "'w prog \<Rightarrow> bool" where
  "runs m = (\<forall>s. \<exists>v s'. m s = (Returns v, s'))"

text \<open>An argument of \<open>configureAuth\<close> whose \<open>loginUrl\<close> and \<open>logoutUrl\<close> are both the
  \<open>LOGIN_URL\<close> of a configuration the store hands out, and a trace event that, if it is
  a call of \<open>configureAuth\<close>, has one such argument.\<close>

definition loginAsLogout :: "'w collab \<Rightarrow> jsval \<Rightarrow> bool" where
  "loginAsLogout c a = (\<exists>w cfg. getConfig c w = Returns cfg \<and>
      readProp a ''loginUrl'' = readProp cfg ''LOGIN_URL'' \<and>
      readProp a ''logoutUrl'' = readProp cfg ''LOGIN_URL'')"

definition authCallOK :: "'w collab \<Rightarrow> event \<Rightarrow> bool" where
  "authCallOK c e = (\<forall>args. e = Call ''configureAuth'' args \<longrightarrow> (\<exists>a. args = [a] \<and> loginAsLogout c a))"

section \<open>The try block around the wiring of the auth phase\<close>

text \<open>
  The statements of the \<open>try\<close> block that come before \<open>configureAuth({...})\<close> (the
  \<open>pubSub\<close>, \<open>config\<close> and \<open>logging\<close> phases), and the statements that come after it
  (from the call of the auth handler to \<open>publish(APP_READY)\<close>). With the wiring of the auth
  phase between them they are \<open>initSequence\<close>.
\<close>

definition beforeAuth :: "'w collab \<Rightarrow> jsval \<Rightarrow> jsval \<Rightarrow> 'w prog" where
  "beforeAuth c loggingService handlers =
     andThen (callHandler c handlers ''pubSub'' []) (\<lambda>_.
     andThen (publish APP_PUBSUB_INITIALIZED None) (\<lambda>_.

     andThen (callHandler c handlers ''config'' []) (\<lambda>_.
     andThen (publish APP_CONFIG_INITIALIZED None) (\<lambda>_.

     andThen (reader (getConfig c)) (\<lambda>config.
     andThen (external ''configureLogging'' (configureLogging c)
                [loggingService, JObj [(''config'', config)]]) (\<lambda>_.
     andThen (callHandler c handlers ''logging'' []) (\<lambda>_.
     publish APP_LOGGING_INITIALIZED None)))))))"

definition fromAuthHandler ::
  "'w collab \<Rightarrow> jsval \<Rightarrow> jsval \<Rightarrow> jsval \<Rightarrow> jsval \<Rightarrow> jsval \<Rightarrow> 'w prog" where
  "fromAuthHandler c analyticsService requireUser hydrateUser messages handlers =
     andThen (callHandler c handlers ''auth'' [requireUser, hydrateUser]) (\<lambda>_.
     andThen (publish APP_AUTH_INITIALIZED None) (\<lambda>_.

     andThen (reader (getConfig c)) (\<lambda>config.
     andThen (reader (getLoggingService c)) (\<lambda>logging.
     andThen (reader (getAuthenticatedHttpClient c)) (\<lambda>httpClient.
     andThen (external ''configureAnalytics'' (configureAnalytics c)
                [analyticsService,
                 JObj [(''config'', config), (''loggingService'', logging),
                       (''httpClient'', httpClient)]]) (\<lambda>_.
     andThen (callHandler c handlers ''analytics'' []) (\<lambda>_.
     andThen (publish APP_ANALYTICS_INITIALIZED None) (\<lambda>_.

     andThen (reader (getConfig c)) (\<lambda>config.
     andThen (reader (getLoggingService c)) (\<lambda>logging.
     andThen (external ''configureI18n'' (configureI18n c)
                [JObj [(''messages'', messages), (''config'', config),
                       (''loggingService'', logging)]]) (\<lambda>_.
     andThen (callHandler c handlers ''i18n'' []) (\<lambda>_.
     andThen (publish APP_I18N_INITIALIZED None) (\<lambda>_.

     andThen (callHandler c handlers ''ready'' []) (\<lambda>_.
     publish APP_READY None))))))))))))))"

section \<open>More concrete collaborators and runs\<close>

text \<open>An analytics service that keeps what it was identified with, and an auth service
  whose \<open>configure\<close> throws the \<open>logoutUrl\<close> it was given.\<close>

definition taggingAnalytics :: "jsval collab" where
  "taggingAnalytics =
     demoCollab\<lparr>identifyAuthenticatedUser :=
       (\<lambda>a w. (Returns JUndefined, JObj [(''identifiedAs'', arg 0 a)]))\<rparr>"

definition refusingAuth :: "jsval collab" where
  "refusingAuth =
     demoCollab\<lparr>configureAuth := (\<lambda>a w. (Throws (readProp (arg 0 a) ''logoutUrl''), w))\<rparr>"

text \<open>The trace up to the wiring of the auth phase, what the default auth handler does
  when a user is required and one is logged in, and the run with a required login.\<close>

definition untilAuthWiring :: "event list" where
  "untilAuthWiring =
     ranPhase PubSub [] [] @ ranPhase Config [] [] @ wiredLogging @ ranPhase Logging [] []"

definition ensured :: "event list" where
  "ensured =
     [Call ''ensureAuthenticatedUser'' [JStr ''https://app.test/page''],
      Returned ''ensureAuthenticatedUser'']"

definition requiredLoginTrace :: "event list" where
  "requiredLoginTrace =
     untilAuth @ ranPhase Auth [JBool True, JBool False] ensured @
     wiredAnalytics @ afterAnalytics @ ranPhase Ready [] []"

section \<open>Lemmas about the program monad and the trace\<close>

lemmas prog_defs = ret_def throw_def lift_def andThen_def tryCatch_def emit_def foreign_def
  external_def reader_def await_def async_def

lemma andThenE:
  assumes "andThen m f s = (r, s')"
  obtains (ret) v s1 where "m s = (Returns v, s1)" "f v s1 = (r, s')"
        | (thr) e where "m s = (Throws e, s')" "r = Throws e"
        | (nev) "m s = (Never, s')" "r = Never"
  using assms by (auto simp: andThen_def split: prod.splits outcome.splits)

lemma emits_ret: "emits P (ret v)" by (simp add: emits_def ret_def)

lemma emits_throw: "emits P (throw v)" by (simp add: emits_def throw_def)

lemma emits_lift: "emits P (lift v)" by (simp add: emits_def lift_def)

lemma emits_reader: "emits P (reader g)" by (simp add: emits_def reader_def)

lemma emits_foreign: "emits P (foreign f a)" by (auto simp add: emits_def foreign_def split: prod.splits)

lemma emits_emit: "P e \<Longrightarrow> emits P (emit e)" by (simp add: emits_def emit_def)

lemma emits_andThen_post:
  assumes m: "emits P m"
    and post: "\<And>s v s'. m s = (Returns v, s') \<Longrightarrow> R v"
    and f: "\<And>v. R v \<Longrightarrow> emits P (f v)"
  shows "emits P (andThen m f)"
  unfolding emits_def
proof (intro allI impI)
  fix s r s' assume run: "andThen m f s = (r, s')"
  then show "\<exists>new. trace s' = trace s @ new \<and> list_all P new"
  proof (cases rule: andThenE)
    case (ret v s1)
    from m ret(1) obtain n1 where n1: "trace s1 = trace s @ n1" "list_all P n1"
      unfolding emits_def by blast
    from f[OF post[OF ret(1)]] ret(2) obtain n2 where n2: "trace s' = trace s1 @ n2" "list_all P n2"
      unfolding emits_def by blast
    from n1 n2 show ?thesis by simp
  next
    case (thr e) with m show ?thesis unfolding emits_def by blast
  next
    case nev with m show ?thesis unfolding emits_def by blast
  qed
qed

lemma emits_andThen: "emits P m \<Longrightarrow> (\<And>v. emits P (f v)) \<Longrightarrow> emits P (andThen m f)"
  by (rule emits_andThen_post[where R = "\<lambda>_. True"]) simp_all

lemma emits_external: "P (Call n a) \<Longrightarrow> P (Returned n) \<Longrightarrow> emits P (external n f a)"
  unfolding external_def by (intro emits_andThen emits_emit emits_foreign emits_ret)

lemma emits_await: "emits P m \<Longrightarrow> emits P (await m)"
  unfolding await_def by (intro emits_andThen emits_lift)

lemma emits_async: "emits P m \<Longrightarrow> emits P (async m)"
  by (auto simp: emits_def async_def split: prod.splits)

lemma emits_tryCatch:
  assumes m: "emits P m" and h: "\<And>e. emits P (h e)"
  shows "emits P (tryCatch m h)"
  unfolding emits_def
proof (intro allI impI)
  fix s r s' assume run: "tryCatch m h s = (r, s')"
  obtain r1 s1 where m1: "m s = (r1, s1)" by (cases "m s")
  from m m1 obtain n1 where n1: "trace s1 = trace s @ n1" "list_all P n1"
    unfolding emits_def by blast
  show "\<exists>new. trace s' = trace s @ new \<and> list_all P new"
  proof (cases r1)
    case (Throws e)
    with run m1 have "h e s1 = (r, s')" by (simp add: tryCatch_def)
    with h[of e] obtain n2 where "trace s' = trace s1 @ n2" "list_all P n2"
      unfolding emits_def by blast
    with n1 show ?thesis by simp
  qed (use run m1 n1 in \<open>auto simp: tryCatch_def\<close>)
qed

lemma emits_weaken: "emits P m \<Longrightarrow> (\<And>e. P e \<Longrightarrow> Q e) \<Longrightarrow> emits Q m"
  unfolding emits_def list_all_iff by blast

lemma callOnly_simps [simp]:
  "callOnly (Call n a) = (n \<notin> set wiringCalls)"
  "callOnly (Returned n) = (n \<notin> set wiringCalls)"
  "callOnly (Publish t p) = False" "callOnly (Invoke k a) = False" "callOnly (Resolved k) = False"
  by (simp_all add: callOnly_def)

lemma emits_noOp: "emits callOnly (noOp a)"
  unfolding noOp_def by (intro emits_async emits_ret)

lemma emits_initError: "emits callOnly (initError c a)"
  unfolding initError_def Let_def
  by (intro emits_async emits_andThen emits_external emits_ret) (simp_all add: wiringCalls_def)

lemma emits_if: "emits P a \<Longrightarrow> emits P b \<Longrightarrow> emits P (if c then a else b)" by simp

lemma emits_auth: "emits callOnly (auth c a)"
  unfolding auth_def Let_def
  by (intro emits_async emits_andThen emits_if emits_await emits_external emits_ret emits_reader)
     (simp_all add: wiringCalls_def)

lemma emits_analytics: "emits callOnly (analytics c a)"
  unfolding analytics_def Let_def
  by (intro emits_async emits_andThen emits_if emits_await emits_external emits_ret emits_reader emits_lift)
     (simp_all add: wiringCalls_def)

lemma isReturns_simps [simp]: "isReturns (Returns v)" "\<not> isReturns (Throws e)" "\<not> isReturns Never"
  by (simp_all add: isReturns_def)

lemma control_callOnly: "list_all callOnly new \<Longrightarrow> control new = []"
  by (induction new) (auto simp: control_def callOnly_def split: event.splits)

lemma control_append [simp]: "control (a @ b) = control a @ control b"
  by (simp add: control_def)

lemma control_Nil [simp]: "control [] = []" by (simp add: control_def)

lemma emits_invoke_body:
  "emits callOnly (case f of
        JOwn NoOp \<Rightarrow> noOp args
      | JOwn AuthFn \<Rightarrow> auth c args
      | JOwn AnalyticsFn \<Rightarrow> analytics c args
      | JOwn InitErrorFn \<Rightarrow> initError c args
      | JFun n \<Rightarrow> foreign (funs c n) args
      | _ \<Rightarrow> throw typeError)"
  by (auto split: jsval.splits ownfn.splits intro: emits_noOp emits_auth emits_analytics emits_initError emits_foreign emits_throw)

lemma invoke_control:
  assumes "invoke c k f args s = (r, s')"
  shows "\<exists>new. trace s' = trace s @ new \<and>
      (control new = [Invoke k args] \<or> (control new = [] \<and> \<not> isReturns r))"
proof -
  consider (own) g where "f = JOwn g" | (ext) n where "f = JFun n" | (other) "\<forall>g. f \<noteq> JOwn g" "\<forall>n. f \<noteq> JFun n"
    by (cases f) auto
  then show ?thesis
  proof cases
    case other
    then have "invoke c k f args = throw typeError"
      by (cases f) (simp_all add: invoke_def)
    with assms show ?thesis by (auto simp: throw_def)
  next
    case (own g)
    define body where "body = (case g of NoOp \<Rightarrow> noOp args | AuthFn \<Rightarrow> auth c args
        | AnalyticsFn \<Rightarrow> analytics c args | InitErrorFn \<Rightarrow> initError c args)"
    have b: "emits callOnly body" unfolding body_def
      by (cases g) (simp_all add: emits_noOp emits_auth emits_analytics emits_initError)
    have "invoke c k f args = andThen (emit (Invoke k args)) (\<lambda>_. body)"
      using own by (cases g) (simp_all add: invoke_def body_def)
    with assms have "body (s\<lparr>trace := trace s @ [Invoke k args]\<rparr>) = (r, s')"
      by (simp add: andThen_def emit_def)
    with b obtain new where "trace s' = trace s @ [Invoke k args] @ new" "list_all callOnly new"
      unfolding emits_def by fastforce
    then show ?thesis using control_callOnly[of new] by (auto simp: control_def)
  next
    case (ext n)
    with assms have "foreign (funs c n) args (s\<lparr>trace := trace s @ [Invoke k args]\<rparr>) = (r, s')"
      by (simp add: invoke_def andThen_def emit_def)
    then have "trace s' = trace s @ [Invoke k args]"
      by (auto simp: foreign_def split: prod.splits)
    then show ?thesis by (auto simp: control_def)
  qed
qed

lemma callHandler_control:
  assumes "callHandler c h k args s = (r, s')"
  shows "\<exists>new. trace s' = trace s @ new \<and>
      (if isReturns r then control new = [Invoke k args, Resolved k]
       else control new = [] \<or> control new = [Invoke k args])"
proof (cases "getProp h k")
  case (Returns f)
  obtain ri s1 where iv: "invoke c k f args s = (ri, s1)" by (cases "invoke c k f args s")
  from invoke_control[OF iv] obtain new where
    new: "trace s1 = trace s @ new" "control new = [Invoke k args] \<or> (control new = [] \<and> \<not> isReturns ri)"
    by blast
  show ?thesis
  proof (cases ri)
    case (Returns v)
    note riv = this
    with new have cn: "control new = [Invoke k args]" by simp
    show ?thesis
    proof (cases "settle v")
      case (Returns u)
      with assms \<open>getProp h k = Returns f\<close> iv riv
      have "r = Returns JUndefined" "s' = s1\<lparr>trace := trace s1 @ [Resolved k]\<rparr>"
        by (auto simp: callHandler_def await_def andThen_def lift_def emit_def)
      with new(1) cn show ?thesis
        by (intro exI[of _ "new @ [Resolved k]"]) (simp add: control_def)
    next
      case (Throws e)
      with assms \<open>getProp h k = Returns f\<close> iv riv
      have "r = Throws e" "s' = s1"
        by (auto simp: callHandler_def await_def andThen_def lift_def emit_def)
      with new(1) cn show ?thesis by (intro exI[of _ new]) simp
    next
      case Never
      with assms \<open>getProp h k = Returns f\<close> iv riv
      have "r = Never" "s' = s1"
        by (auto simp: callHandler_def await_def andThen_def lift_def emit_def)
      with new(1) cn show ?thesis by (intro exI[of _ new]) simp
    qed
  next
    case (Throws e)
    with assms \<open>getProp h k = Returns f\<close> iv
    have "r = Throws e" "s' = s1"
      by (auto simp: callHandler_def await_def andThen_def lift_def emit_def)
    with new show ?thesis by (intro exI[of _ new]) auto
  next
    case Never
    with assms \<open>getProp h k = Returns f\<close> iv
    have "r = Never" "s' = s1"
      by (auto simp: callHandler_def await_def andThen_def lift_def emit_def)
    with new show ?thesis by (intro exI[of _ new]) auto
  qed
next
  case (Throws e)
  with assms have "r = Throws e" "s' = s"
    by (auto simp: callHandler_def await_def andThen_def lift_def emit_def)
  then show ?thesis by (intro exI[of _ "[]"]) simp
next
  case Never
  with assms have "r = Never" "s' = s"
    by (auto simp: callHandler_def await_def andThen_def lift_def emit_def)
  then show ?thesis by (intro exI[of _ "[]"]) simp
qed

lemma seqOK_quiet:
  assumes w: "emits (\<lambda>e. \<not> isControl e) W" and f: "\<And>v. seqOK exp (f v)" and ne: "exp \<noteq> []"
  shows "seqOK exp (andThen W f)"
  unfolding seqOK_def
proof (intro allI impI)
  fix s r s' assume run: "andThen W f s = (r, s')"
  have quiet: "\<And>s r s'. W s = (r, s') \<Longrightarrow> \<exists>new. trace s' = trace s @ new \<and> control new = []"
    using w unfolding emits_def control_def list_all_iff by (metis filter_False)
  from run show "\<exists>new. trace s' = trace s @ new \<and> goodStop exp r (control new)"
  proof (cases rule: andThenE)
    case (ret v s1)
    from quiet[OF ret(1)] obtain n1 where n1: "trace s1 = trace s @ n1" "control n1 = []" by blast
    from f[of v] ret(2) obtain n2 where n2: "trace s' = trace s1 @ n2" "goodStop exp r (control n2)"
      unfolding seqOK_def by blast
    from n1 n2 show ?thesis by (intro exI[of _ "n1 @ n2"]) simp
  next
    case (thr e)
    from quiet[OF thr(1)] obtain n1 where "trace s' = trace s @ n1" "control n1 = []" by blast
    with thr ne show ?thesis by (intro exI[of _ n1]) (auto simp: goodStop_def)
  next
    case nev
    from quiet[OF nev(1)] obtain n1 where "trace s' = trace s @ n1" "control n1 = []" by blast
    with nev ne show ?thesis by (intro exI[of _ n1]) (auto simp: goodStop_def)
  qed
qed

lemma goodStop_Cons:
  "goodStop exp r t \<Longrightarrow> \<not> isResolved e \<Longrightarrow> goodStop (e # exp) r (e # t)"
  by (auto simp: goodStop_def)

lemma goodStop_Nil: "\<not> isReturns r \<Longrightarrow> exp \<noteq> [] \<Longrightarrow> goodStop exp r []"
  by (auto simp: goodStop_def)

lemma seqOK_wiring:
  assumes n: "n \<in> set wiringCalls" and f: "\<And>v. seqOK exp (f v)"
  shows "seqOK (Returned n # exp) (andThen (external n g args) f)"
  unfolding seqOK_def
proof (intro allI impI)
  fix s r s' assume run: "andThen (external n g args) f s = (r, s')"
  obtain rg w' where g: "g args (ext s) = (rg, w')" by (cases "g args (ext s)")
  show "\<exists>new. trace s' = trace s @ new \<and> goodStop (Returned n # exp) r (control new)"
  proof (cases rg)
    case (Returns v)
    with g have "external n g args s = (Returns v, \<lparr>trace = trace s @ [Call n args, Returned n], ext = w'\<rparr>)"
      by (simp add: prog_defs)
    with run have "f v \<lparr>trace = trace s @ [Call n args, Returned n], ext = w'\<rparr> = (r, s')"
      by (simp add: andThen_def)
    with f[of v] obtain n2 where n2: "trace s' = trace s @ [Call n args, Returned n] @ n2"
        "goodStop exp r (control n2)"
      unfolding seqOK_def by fastforce
    then show ?thesis using n
      by (intro exI[of _ "[Call n args, Returned n] @ n2"]) (simp add: control_def goodStop_Cons)
  next
    case (Throws e)
    with g run have "r = Throws e" "trace s' = trace s @ [Call n args]"
      by (auto simp: prog_defs)
    then show ?thesis by (intro exI[of _ "[Call n args]"]) (simp add: control_def goodStop_Nil)
  next
    case Never
    with g run have "r = Never" "trace s' = trace s @ [Call n args]"
      by (auto simp: prog_defs)
    then show ?thesis by (intro exI[of _ "[Call n args]"]) (simp add: control_def goodStop_Nil)
  qed
qed

lemma seqOK_last:
  "seqOK [Invoke k a, Resolved k, Publish t None]
     (andThen (callHandler c h k a) (\<lambda>_. publish t None))"
  unfolding seqOK_def
proof (intro allI impI)
  fix s r s' assume run: "andThen (callHandler c h k a) (\<lambda>_. publish t None) s = (r, s')"
  obtain rh s1 where h: "callHandler c h k a s = (rh, s1)" by (cases "callHandler c h k a s")
  from callHandler_control[OF h] obtain n1 where n1: "trace s1 = trace s @ n1"
     "if isReturns rh then control n1 = [Invoke k a, Resolved k]
       else control n1 = [] \<or> control n1 = [Invoke k a]" by blast
  show "\<exists>new. trace s' = trace s @ new \<and> goodStop [Invoke k a, Resolved k, Publish t None] r (control new)"
  proof (cases rh)
    case (Returns v)
    with h run have "r = Returns JUndefined" "trace s' = trace s1 @ [Publish t None]"
      by (auto simp: andThen_def publish_def emit_def)
    with n1 Returns show ?thesis
      by (intro exI[of _ "n1 @ [Publish t None]"]) (simp add: goodStop_def control_def)
  next
    case (Throws e)
    with h run have "r = Throws e" "s' = s1" by (auto simp: andThen_def)
    with n1 Throws show ?thesis by (intro exI[of _ n1]) (auto simp: goodStop_def)
  next
    case Never
    with h run have "r = Never" "s' = s1" by (auto simp: andThen_def)
    with n1 Never show ?thesis by (intro exI[of _ n1]) (auto simp: goodStop_def)
  qed
qed

lemma seqOK_handler:
  assumes f: "\<And>v. seqOK exp (f v)"
  shows "seqOK (Invoke k a # Resolved k # Publish t None # exp)
     (andThen (callHandler c h k a) (\<lambda>_. andThen (publish t None) f))"
  unfolding seqOK_def
proof (intro allI impI)
  fix s r s'
  assume run: "andThen (callHandler c h k a) (\<lambda>_. andThen (publish t None) f) s = (r, s')"
  obtain rh s1 where h: "callHandler c h k a s = (rh, s1)" by (cases "callHandler c h k a s")
  from callHandler_control[OF h] obtain n1 where n1: "trace s1 = trace s @ n1"
     "if isReturns rh then control n1 = [Invoke k a, Resolved k]
       else control n1 = [] \<or> control n1 = [Invoke k a]" by blast
  let ?exp = "Invoke k a # Resolved k # Publish t None # exp"
  show "\<exists>new. trace s' = trace s @ new \<and> goodStop ?exp r (control new)"
  proof (cases rh)
    case (Returns v)
    with h run have "f JUndefined (s1\<lparr>trace := trace s1 @ [Publish t None]\<rparr>) = (r, s')"
      by (simp add: andThen_def publish_def emit_def)
    with f[of JUndefined] obtain n2 where n2: "trace s' = trace s1 @ [Publish t None] @ n2"
       "goodStop exp r (control n2)"
      unfolding seqOK_def by fastforce
    have "goodStop ?exp r ([Invoke k a, Resolved k, Publish t None] @ control n2)"
      using n2(2) by (auto simp: goodStop_def)
    with n1 n2 Returns show ?thesis
      by (intro exI[of _ "n1 @ [Publish t None] @ n2"]) (simp add: control_def)
  next
    case (Throws e)
    with h run have "r = Throws e" "s' = s1" by (auto simp: andThen_def)
    with n1 Throws show ?thesis by (intro exI[of _ n1]) (auto simp: goodStop_def)
  next
    case Never
    with h run have "r = Never" "s' = s1" by (auto simp: andThen_def)
    with n1 Never show ?thesis by (intro exI[of _ n1]) (auto simp: goodStop_def)
  qed
qed

lemma quiet_configProp: "emits (\<lambda>e. \<not> isControl e) (configProp c k)"
  unfolding configProp_def by (intro emits_andThen emits_reader emits_lift)

lemma quiet_authOptions: "emits (\<lambda>e. \<not> isControl e) (authOptions c)"
  unfolding authOptions_def
  by (intro emits_andThen emits_reader emits_ret quiet_configProp)

lemma seqOK_reader: "(\<And>v. seqOK exp (f v)) \<Longrightarrow> exp \<noteq> [] \<Longrightarrow> seqOK exp (andThen (reader g) f)"
  by (rule seqOK_quiet[OF emits_reader])

lemma seqOK_authOptions:
  "(\<And>v. seqOK exp (f v)) \<Longrightarrow> exp \<noteq> [] \<Longrightarrow> seqOK exp (andThen (authOptions c) f)"
  by (rule seqOK_quiet[OF quiet_authOptions])

lemma expected_unfold:
  "expected rq hy =
    [Invoke ''pubSub'' [], Resolved ''pubSub'', Publish APP_PUBSUB_INITIALIZED None,
     Invoke ''config'' [], Resolved ''config'', Publish APP_CONFIG_INITIALIZED None,
     Returned ''configureLogging'',
     Invoke ''logging'' [], Resolved ''logging'', Publish APP_LOGGING_INITIALIZED None,
     Returned ''configureAuth'',
     Invoke ''auth'' [rq, hy], Resolved ''auth'', Publish APP_AUTH_INITIALIZED None,
     Returned ''configureAnalytics'',
     Invoke ''analytics'' [], Resolved ''analytics'', Publish APP_ANALYTICS_INITIALIZED None,
     Returned ''configureI18n'',
     Invoke ''i18n'' [], Resolved ''i18n'', Publish APP_I18N_INITIALIZED None,
     Invoke ''ready'' [], Resolved ''ready'', Publish APP_READY None]"
  by (simp add: expected_def phaseOrder_def phaseEvents_def)

lemma initSequence_seqOK:
  "seqOK (expected rq hy) (initSequence c ls an rq hy msgs h)"
  unfolding expected_unfold initSequence_def
  by (intro seqOK_handler seqOK_last seqOK_wiring seqOK_reader seqOK_authOptions)
     (simp_all add: wiringCalls_def)

lemma demo_fields [simp]:
  "getConfig demoCollab = (\<lambda>w. Returns demoConfig)"
  "configureLogging demoCollab = (\<lambda>a w. (Returns JUndefined, w))"
  "getLoggingService demoCollab = (\<lambda>w. Returns (JStr ''logger''))"
  "logError demoCollab = (\<lambda>a w. (Returns JUndefined, w))"
  "configureAnalytics demoCollab = (\<lambda>a w. (Returns JUndefined, w))"
  "identifyAnonymousUser demoCollab = (\<lambda>a w. (Returns JUndefined, w))"
  "identifyAuthenticatedUser demoCollab = (\<lambda>a w. (Returns JUndefined, w))"
  "getAuthenticatedHttpClient demoCollab = (\<lambda>w. Returns (JStr ''client''))"
  "configureAuth demoCollab = (\<lambda>a w. (Returns JUndefined, w))"
  "ensureAuthenticatedUser demoCollab = (\<lambda>a w. if w = JNull then (Returns (JPromise (Throws redirectError)), w)
                                       else (Returns (JPromise (Returns JUndefined)), w))"
  "fetchAuthenticatedUser demoCollab = (\<lambda>a w. (Returns (JPromise (Returns JUndefined)), w))"
  "hydrateAuthenticatedUser demoCollab = (\<lambda>a w. (Returns (JPromise (Throws (JStr ''hydration failed''))), w))"
  "getAuthenticatedUser demoCollab = (\<lambda>w. Returns w)"
  "configureI18n demoCollab = (\<lambda>a w. (Returns JUndefined, w))"
  "locationHref demoCollab = (\<lambda>w. JStr ''https://app.test/page'')"
  "funs demoCollab = demoFuns"
  by (simp_all add: demoCollab_def)

lemmas run_defs = prog_defs publish_def initialize_def initSequence_def initCatch_def callHandler_def invoke_def
  applyOverrideHandlers_def authOptions_def configProp_def auth_def analytics_def initError_def noOp_def
  getProp_def arg_def dflt_def Let_def demoFuns_def demoConfig_def demoUser_def start_def
  redirectError_def

lemma precedes_filter: "precedes a b (filter P xs) \<Longrightarrow> precedes a b xs"
  by (induction xs) (auto split: if_splits)


lemma in_control: "isControl e \<Longrightarrow> e \<in> set (control tr) \<longleftrightarrow> e \<in> set tr"
  by (simp add: control_def)

lemma published_control: "published (control tr) = published tr"
  unfolding published_def control_def
  by (induction tr) (auto split: event.splits)

lemma completed_control: "completed (control tr) = completed tr"
  by (simp add: completed_def in_control)

lemma goodStop_stops: "goodStop (expected rq hy) r t \<Longrightarrow> t \<in> set (stops rq hy)"
  by (auto simp: goodStop_def stops_def in_set_prefixes)

lemmas topic_defs = APP_TOPIC_def APP_PUBSUB_INITIALIZED_def APP_CONFIG_INITIALIZED_def
  APP_AUTH_INITIALIZED_def APP_I18N_INITIALIZED_def APP_LOGGING_INITIALIZED_def
  APP_ANALYTICS_INITIALIZED_def APP_READY_def APP_INIT_ERROR_def


lemma stops_published:
  "\<forall>t\<in>set (stops rq hy). published t = completions (completed t)"
  by (simp add: stops_def expected_unfold phaseOrder_def published_def completions_def completed_def)

lemma newEvents_append: "trace s' = trace s @ new \<Longrightarrow> newEvents s s' = new"
  by (simp add: newEvents_def)

lemma await_async: "await (async m) = m"
  by (rule ext) (auto simp: await_def async_def andThen_def lift_def split: prod.splits outcome.splits)

lemma initialize_run:
  assumes "\<not> nullish options"
  shows "await (initialize c [options]) =
     andThen (tryCatch (trySequence c options) (initCatch c (handlersFor options)))
       (\<lambda>_. ret JUndefined)"
  using assms
  by (simp add: initialize_def arg_def Let_def await_async trySequence_def handlersFor_def
        requireUserFor_def hydrateUserFor_def)

lemma trySequence_stops:
  assumes "trySequence c options s = (r, s1)"
  shows "\<exists>new. trace s1 = trace s @ new \<and>
     goodStop (expected (requireUserFor options) (hydrateUserFor options)) r (control new)"
  using assms initSequence_seqOK unfolding trySequence_def seqOK_def by blast

lemma initCatch_cases:
  assumes "initCatch c h e s1 = (r, s')"
  obtains (nullish) "nullish e" "r = Throws typeError" "s' = s1"
    | (redirect) "\<not> nullish e" "truthy (readProp e ''isRedirecting'')" "r = Returns JUndefined" "s' = s1"
    | (reported) s2 v where "\<not> nullish e" "\<not> truthy (readProp e ''isRedirecting'')"
         "callHandler c h ''initError'' [e] s1 = (Returns v, s2)"
         "r = Returns JUndefined" "s' = s2\<lparr>trace := trace s2 @ [Publish APP_INIT_ERROR (Some e)]\<rparr>"
    | (failed) rh where "\<not> nullish e" "\<not> truthy (readProp e ''isRedirecting'')"
         "callHandler c h ''initError'' [e] s1 = (rh, s')" "\<not> isReturns rh" "r = rh"
proof (cases "nullish e")
  case True
  with assms have "r = Throws typeError" "s' = s1"
    by (auto simp: initCatch_def getProp_def andThen_def lift_def)
  with True show ?thesis by (rule nullish)
next
  case False
  show ?thesis
  proof (cases "truthy (readProp e ''isRedirecting'')")
    case True
    with False assms have "r = Returns JUndefined" "s' = s1"
      by (auto simp: initCatch_def getProp_def andThen_def lift_def ret_def)
    with False True show ?thesis by (rule redirect)
  next
    case nt: False
    obtain rh s2 where h: "callHandler c h ''initError'' [e] s1 = (rh, s2)"
      by (cases "callHandler c h ''initError'' [e] s1")
    show ?thesis
    proof (cases rh)
      case (Returns v)
      with False nt assms h
      have "r = Returns JUndefined" "s' = s2\<lparr>trace := trace s2 @ [Publish APP_INIT_ERROR (Some e)]\<rparr>"
        by (auto simp: initCatch_def getProp_def andThen_def lift_def publish_def emit_def)
      with False nt h Returns show ?thesis by (intro reported) auto
    next
      case (Throws x)
      with False nt assms h have "r = rh" "s' = s2"
        by (auto simp: initCatch_def getProp_def andThen_def lift_def)
      with False nt h Throws show ?thesis by (intro failed) auto
    next
      case Never
      with False nt assms h have "r = rh" "s' = s2"
        by (auto simp: initCatch_def getProp_def andThen_def lift_def)
      with False nt h Never show ?thesis by (intro failed) auto
    qed
  qed
qed

lemma run_cases:
  assumes nn: "\<not> nullish options" and run: "await (initialize c [options]) s = (r, s')"
  obtains (finished) v where "trySequence c options s = (Returns v, s')" "r = Returns JUndefined"
    | (hang) "trySequence c options s = (Never, s')" "r = Never"
    | (caught) e s1 rc where "trySequence c options s = (Throws e, s1)"
         "initCatch c (handlersFor options) e s1 = (rc, s')"
         "r = (if isReturns rc then Returns JUndefined else rc)"
proof -
  obtain rt s1 where t: "trySequence c options s = (rt, s1)" by (cases "trySequence c options s")
  show ?thesis
  proof (cases rt)
    case (Returns v)
    with run t nn have "r = Returns JUndefined" "s' = s1"
      by (auto simp: initialize_run andThen_def tryCatch_def ret_def)
    with t Returns show ?thesis by (intro finished) auto
  next
    case Never
    with run t nn have "r = Never" "s' = s1"
      by (auto simp: initialize_run andThen_def tryCatch_def ret_def)
    with t Never show ?thesis by (intro hang) auto
  next
    case (Throws e)
    obtain rc s2 where c: "initCatch c (handlersFor options) e s1 = (rc, s2)"
      by (cases "initCatch c (handlersFor options) e s1")
    with run t nn Throws have "r = (if isReturns rc then Returns JUndefined else rc)" "s' = s2"
      by (auto simp: initialize_run andThen_def tryCatch_def ret_def isReturns_def split: outcome.splits)
    with t Throws c show ?thesis by (intro caught) auto
  qed
qed




lemma handlerKey_not_initError: "handlerKey p \<noteq> ''initError''"
  by (cases p) simp_all


lemma stops_fail:
  "\<forall>t\<in>set (stops rq hy). t \<noteq> expected rq hy \<longrightarrow>
      completed t \<noteq> phaseOrder \<and>
      (\<forall>p\<in>set (drop (length (completed t)) phaseOrder). Publish (completionTopic p) None \<notin> set t)"
  by (simp add: stops_def expected_unfold phaseOrder_def completed_def topic_defs)

lemma stops_no_initError:
  "\<forall>t\<in>set (stops rq hy). (\<forall>a. Invoke ''initError'' a \<notin> set t) \<and> Resolved ''initError'' \<notin> set t
       \<and> (\<forall>x. Publish APP_INIT_ERROR x \<notin> set t)"
  by (simp add: stops_def expected_unfold topic_defs)

lemma published_append [simp]: "published (a @ b) = published a @ published b"
  by (simp add: published_def)

lemma completed_append_other:
  "(\<And>p. Resolved (handlerKey p) \<notin> set b) \<Longrightarrow> completed (a @ b) = completed a"
  by (simp add: completed_def)

lemma invoke_callable:
  assumes "callable f" "invoke c k f args s = (r, s')"
  shows "\<exists>new. trace s' = trace s @ Invoke k args # new"
proof -
  have "\<exists>body::'a prog. emits callOnly body \<and> invoke c k f args = andThen (emit (Invoke k args)) (\<lambda>_. body)"
    using assms(1) emits_noOp[of args] emits_auth[of c args] emits_analytics[of c args]
      emits_initError[of c args] emits_foreign[of callOnly]
    by (auto simp: callable_def invoke_def split: jsval.splits ownfn.splits)
  then obtain body :: "'a prog" where b: "emits callOnly body"
      "invoke c k f args = andThen (emit (Invoke k args)) (\<lambda>_. body)" by blast
  with assms(2) have "body (s\<lparr>trace := trace s @ [Invoke k args]\<rparr>) = (r, s')"
    by (simp add: andThen_def emit_def)
  with b(1) obtain new where "trace s' = trace s @ [Invoke k args] @ new"
    unfolding emits_def by fastforce
  then show ?thesis by simp
qed

lemma callHandler_callable:
  assumes "callable (readProp h k)" "\<not> nullish h" "callHandler c h k args s = (r, s')"
  shows "Invoke k args \<in> set (newEvents s s')"
proof -
  obtain ri s1 where iv: "invoke c k (readProp h k) args s = (ri, s1)"
    by (cases "invoke c k (readProp h k) args s")
  from invoke_callable[OF assms(1) iv] obtain new where n: "trace s1 = trace s @ Invoke k args # new"
    by blast
  have "\<exists>more. trace s' = trace s1 @ more"
    using assms(2,3) iv
    by (auto simp: callHandler_def await_def andThen_def lift_def emit_def getProp_def
          split: outcome.splits)
  with n show ?thesis by (auto simp: newEvents_def)
qed

lemma handlersFor_not_nullish: "\<not> nullish (handlersFor options)"
  by (simp add: handlersFor_def applyOverrideHandlers_def)

lemma precedes_append2: "precedes a b ys \<Longrightarrow> precedes a b (xs @ ys)"
  by (induction xs) auto

lemma caught_control:
  assumes nn: "\<not> nullish options"
    and thr: "trySequence c options s = (Throws v, s1)"
    and nv: "\<not> nullish v"
    and nm: "\<not> truthy (readProp v ''isRedirecting'')"
    and run: "await (initialize c [options]) s = (r, s')"
  shows "\<exists>n1 n2 rh s2. trace s1 = trace s @ n1 \<and> trace s' = trace s @ n1 @ n2
      \<and> control n1 \<in> set (stops (requireUserFor options) (hydrateUserFor options))
      \<and> control n1 \<noteq> expected (requireUserFor options) (hydrateUserFor options)
      \<and> callHandler c (handlersFor options) ''initError'' [v] s1 = (rh, s2)
      \<and> set (newEvents s1 s2) \<subseteq> set n2
      \<and> ((r = Returns JUndefined \<and> isReturns rh \<and>
            control n2 = [Invoke ''initError'' [v], Resolved ''initError'', Publish APP_INIT_ERROR (Some v)])
         \<or> (r = rh \<and> \<not> isReturns rh \<and> (control n2 = [] \<or> control n2 = [Invoke ''initError'' [v]])))"
proof -
  from trySequence_stops[OF thr] obtain n1 where
    n1: "trace s1 = trace s @ n1"
    and g: "goodStop (expected (requireUserFor options) (hydrateUserFor options)) (Throws v) (control n1)"
    by blast
  have st: "control n1 \<in> set (stops (requireUserFor options) (hydrateUserFor options))"
    using g by (rule goodStop_stops)
  have nf: "control n1 \<noteq> expected (requireUserFor options) (hydrateUserFor options)"
    using g by (simp add: goodStop_def)
  obtain rc where c: "initCatch c (handlersFor options) v s1 = (rc, s')"
    and r: "r = (if isReturns rc then Returns JUndefined else rc)"
    using run thr nn
    by (cases "initCatch c (handlersFor options) v s1")
       (auto simp: initialize_run andThen_def tryCatch_def ret_def isReturns_def split: outcome.splits)
  from c show ?thesis
  proof (cases rule: initCatch_cases)
    case nullish with nv show ?thesis by simp
  next
    case redirect with nm show ?thesis by simp
  next
    case (reported s2 x)
    from callHandler_control[OF reported(3)] obtain n2 where
      n2: "trace s2 = trace s1 @ n2" "control n2 = [Invoke ''initError'' [v], Resolved ''initError'']"
      by auto
    have "trace s' = trace s @ n1 @ (n2 @ [Publish APP_INIT_ERROR (Some v)])"
      using n1 n2 reported(5) by simp
    moreover have "control (n2 @ [Publish APP_INIT_ERROR (Some v)]) =
        [Invoke ''initError'' [v], Resolved ''initError'', Publish APP_INIT_ERROR (Some v)]"
      using n2 by (simp add: control_def)
    moreover have "set (newEvents s1 s2) \<subseteq> set (n2 @ [Publish APP_INIT_ERROR (Some v)])"
      using n2(1) by (auto simp: newEvents_def)
    ultimately show ?thesis using n1 st nf reported r
      by (intro exI[of _ n1] exI[of _ "n2 @ [Publish APP_INIT_ERROR (Some v)]"]
            exI[of _ "Returns x"] exI[of _ s2]) simp
  next
    case (failed rh)
    from callHandler_control[OF failed(3)] failed(4) obtain n2 where
      n2: "trace s' = trace s1 @ n2" "control n2 = [] \<or> control n2 = [Invoke ''initError'' [v]]"
      by auto
    have "set (newEvents s1 s') \<subseteq> set n2" using n2(1) by (simp add: newEvents_def)
    with n1 n2 st nf failed r show ?thesis
      by (intro exI[of _ n1] exI[of _ n2] exI[of _ rh] exI[of _ s']) auto
  qed
qed


lemmas demo_defs = run_defs trySequence_def handlersFor_def requireUserFor_def hydrateUserFor_def
  NewRelicLoggingService_def SegmentAnalyticsService_def topic_defs
  requireUserOptions_def hydrateOptions_def failingAnalyticsOptions_def nullThrowingOptions_def
  failingErrorHandlerOptions_def hangingReadyOptions_def
  ranPhase_def demoAuthOptions_def wiredLogging_def wiredAuth_def wiredAnalytics_def wiredI18n_def
  fetched_def hydrated_def identified_def untilAuth_def untilAnalytics_def afterAnalytics_def
  redirectTrace_def failedAnalyticsTrace_def reportedTrace_def unreportedTrace_def
  hangingTrace_def completeTrace_def hydratedTrace_def typeError_def

lemma demo_redirect_try:
  "trySequence demoCollab requireUserOptions (start JNull) =
     (Throws redirectError, \<lparr>trace = redirectTrace, ext = JNull\<rparr>)"
  by (simp add: demo_defs)

lemma demo_redirect_run:
  "await (initialize demoCollab [requireUserOptions]) (start JNull) =
     (Returns JUndefined, \<lparr>trace = redirectTrace, ext = JNull\<rparr>)"
  by (simp add: demo_defs)

lemma demo_failing_try:
  "trySequence demoCollab failingAnalyticsOptions (start demoUser) =
     (Throws (JStr ''boom''), \<lparr>trace = failedAnalyticsTrace, ext = demoUser\<rparr>)"
  by (simp add: demo_defs)

lemma demo_failing_run:
  "await (initialize demoCollab [failingAnalyticsOptions]) (start demoUser) =
     (Returns JUndefined, \<lparr>trace = reportedTrace, ext = demoUser\<rparr>)"
  by (simp add: demo_defs)

lemma demo_null_try:
  "trySequence demoCollab nullThrowingOptions (start demoUser) =
     (Throws JNull, \<lparr>trace = [Invoke ''pubSub'' []], ext = demoUser\<rparr>)"
  by (simp add: demo_defs)

lemma demo_null_run:
  "await (initialize demoCollab [nullThrowingOptions]) (start demoUser) =
     (Throws typeError, \<lparr>trace = [Invoke ''pubSub'' []], ext = demoUser\<rparr>)"
  by (simp add: demo_defs)

lemma demo_unreported_try:
  "trySequence demoCollab failingErrorHandlerOptions (start demoUser) =
     (Throws (JStr ''boom''), \<lparr>trace = failedAnalyticsTrace, ext = demoUser\<rparr>)"
  by (simp add: demo_defs)

lemma demo_unreported_run:
  "await (initialize demoCollab [failingErrorHandlerOptions]) (start demoUser) =
     (Throws (JStr ''boom''), \<lparr>trace = unreportedTrace, ext = demoUser\<rparr>)"
  by (simp add: demo_defs)

lemma demo_hanging_run:
  "await (initialize demoCollab [hangingReadyOptions]) (start demoUser) =
     (Never, \<lparr>trace = hangingTrace, ext = demoUser\<rparr>)"
  by (simp add: demo_defs)

lemma demo_complete_run:
  "await (initialize demoCollab [JObj []]) (start demoUser) =
     (Returns JUndefined, \<lparr>trace = completeTrace, ext = demoUser\<rparr>)"
  by (simp add: demo_defs)

lemma demo_hydrated_run:
  "await (initialize demoCollab [hydrateOptions]) (start demoUser) =
     (Returns JUndefined, \<lparr>trace = hydratedTrace, ext = demoUser\<rparr>)"
  by (simp add: demo_defs)

lemmas trace_defs = ranPhase_def demoAuthOptions_def wiredLogging_def wiredAuth_def wiredAnalytics_def
  wiredI18n_def fetched_def hydrated_def identified_def untilAuth_def untilAnalytics_def afterAnalytics_def
  redirectTrace_def failedAnalyticsTrace_def reportedTrace_def unreportedTrace_def
  hangingTrace_def completeTrace_def hydratedTrace_def topic_defs published_def completions_def
  completed_def phaseOrder_def newEvents_def start_def

lemma configProp_result:
  assumes "configProp c k s = (Returns v, s')"
  shows "s' = s \<and> (\<exists>cfg. getConfig c (ext s) = Returns cfg \<and> v = readProp cfg k)"
  using assms
  by (auto simp: configProp_def andThen_def reader_def lift_def getProp_def
        split: outcome.splits if_splits)

lemma andThen_ReturnsD:
  assumes "andThen m f s = (Returns a, s')"
  shows "\<exists>v s1. m s = (Returns v, s1) \<and> f v s1 = (Returns a, s')"
  using assms by (cases rule: andThenE) auto

lemma configProp_then:
  assumes "andThen (configProp c k) f s = (Returns a, s')"
  shows "\<exists>cfg. getConfig c (ext s) = Returns cfg \<and> f (readProp cfg k) s = (Returns a, s')"
  using andThen_ReturnsD[OF assms] configProp_result by blast

lemma authOptions_result:
  assumes "authOptions c s = (Returns a, s')"
  shows "s' = s \<and> (\<exists>cfg. getConfig c (ext s) = Returns cfg \<and>
            readProp a ''loginUrl'' = readProp cfg ''LOGIN_URL'' \<and>
            readProp a ''logoutUrl'' = readProp cfg ''LOGIN_URL'')"
proof -
  from andThen_ReturnsD[OF assms[unfolded authOptions_def]]
  obtain ls where 0: "andThen (configProp c ''BASE_URL'') (\<lambda>appBaseUrl.
     andThen (configProp c ''LMS_BASE_URL'') (\<lambda>lmsBaseUrl.
     andThen (configProp c ''LOGIN_URL'') (\<lambda>loginUrl.
     andThen (configProp c ''LOGIN_URL'') (\<lambda>logoutUrl.
     andThen (configProp c ''REFRESH_ACCESS_TOKEN_ENDPOINT'') (\<lambda>refreshAccessTokenEndpoint.
     andThen (configProp c ''ACCESS_TOKEN_COOKIE_NAME'') (\<lambda>accessTokenCookieName.
     andThen (configProp c ''CSRF_TOKEN_API_PATH'') (\<lambda>csrfTokenApiPath.
     ret (JObj [(''loggingService'', ls),
                (''appBaseUrl'', appBaseUrl),
                (''lmsBaseUrl'', lmsBaseUrl),
                (''loginUrl'', loginUrl),
                (''logoutUrl'', logoutUrl),
                (''refreshAccessTokenEndpoint'', refreshAccessTokenEndpoint),
                (''accessTokenCookieName'', accessTokenCookieName),
                (''csrfTokenApiPath'', csrfTokenApiPath)])))))))) s = (Returns a, s')"
    by (auto simp: reader_def)
  from configProp_then[OF 0] obtain cfg1 where 1: "andThen (configProp c ''LMS_BASE_URL'') (\<lambda>lmsBaseUrl.
     andThen (configProp c ''LOGIN_URL'') (\<lambda>loginUrl.
     andThen (configProp c ''LOGIN_URL'') (\<lambda>logoutUrl.
     andThen (configProp c ''REFRESH_ACCESS_TOKEN_ENDPOINT'') (\<lambda>refreshAccessTokenEndpoint.
     andThen (configProp c ''ACCESS_TOKEN_COOKIE_NAME'') (\<lambda>accessTokenCookieName.
     andThen (configProp c ''CSRF_TOKEN_API_PATH'') (\<lambda>csrfTokenApiPath.
     ret (JObj [(''loggingService'', ls),
                (''appBaseUrl'', readProp cfg1 ''BASE_URL''),
                (''lmsBaseUrl'', lmsBaseUrl),
                (''loginUrl'', loginUrl),
                (''logoutUrl'', logoutUrl),
                (''refreshAccessTokenEndpoint'', refreshAccessTokenEndpoint),
                (''accessTokenCookieName'', accessTokenCookieName),
                (''csrfTokenApiPath'', csrfTokenApiPath)]))))))) s = (Returns a, s')"
    by blast
  from configProp_then[OF 1] obtain cfg2 where 2: "andThen (configProp c ''LOGIN_URL'') (\<lambda>loginUrl.
     andThen (configProp c ''LOGIN_URL'') (\<lambda>logoutUrl.
     andThen (configProp c ''REFRESH_ACCESS_TOKEN_ENDPOINT'') (\<lambda>refreshAccessTokenEndpoint.
     andThen (configProp c ''ACCESS_TOKEN_COOKIE_NAME'') (\<lambda>accessTokenCookieName.
     andThen (configProp c ''CSRF_TOKEN_API_PATH'') (\<lambda>csrfTokenApiPath.
     ret (JObj [(''loggingService'', ls),
                (''appBaseUrl'', readProp cfg1 ''BASE_URL''),
                (''lmsBaseUrl'', readProp cfg2 ''LMS_BASE_URL''),
                (''loginUrl'', loginUrl),
                (''logoutUrl'', logoutUrl),
                (''refreshAccessTokenEndpoint'', refreshAccessTokenEndpoint),
                (''accessTokenCookieName'', accessTokenCookieName),
                (''csrfTokenApiPath'', csrfTokenApiPath)])))))) s = (Returns a, s')"
    by blast
  from configProp_then[OF 2] obtain cfg where cfg: "getConfig c (ext s) = Returns cfg"
    and 3: "andThen (configProp c ''LOGIN_URL'') (\<lambda>logoutUrl.
     andThen (configProp c ''REFRESH_ACCESS_TOKEN_ENDPOINT'') (\<lambda>refreshAccessTokenEndpoint.
     andThen (configProp c ''ACCESS_TOKEN_COOKIE_NAME'') (\<lambda>accessTokenCookieName.
     andThen (configProp c ''CSRF_TOKEN_API_PATH'') (\<lambda>csrfTokenApiPath.
     ret (JObj [(''loggingService'', ls),
                (''appBaseUrl'', readProp cfg1 ''BASE_URL''),
                (''lmsBaseUrl'', readProp cfg2 ''LMS_BASE_URL''),
                (''loginUrl'', readProp cfg ''LOGIN_URL''),
                (''logoutUrl'', logoutUrl),
                (''refreshAccessTokenEndpoint'', refreshAccessTokenEndpoint),
                (''accessTokenCookieName'', accessTokenCookieName),
                (''csrfTokenApiPath'', csrfTokenApiPath)]))))) s = (Returns a, s')"
    by blast
  from configProp_then[OF 3] cfg have 4:
    "andThen (configProp c ''REFRESH_ACCESS_TOKEN_ENDPOINT'') (\<lambda>refreshAccessTokenEndpoint.
     andThen (configProp c ''ACCESS_TOKEN_COOKIE_NAME'') (\<lambda>accessTokenCookieName.
     andThen (configProp c ''CSRF_TOKEN_API_PATH'') (\<lambda>csrfTokenApiPath.
     ret (JObj [(''loggingService'', ls),
                (''appBaseUrl'', readProp cfg1 ''BASE_URL''),
                (''lmsBaseUrl'', readProp cfg2 ''LMS_BASE_URL''),
                (''loginUrl'', readProp cfg ''LOGIN_URL''),
                (''logoutUrl'', readProp cfg ''LOGIN_URL''),
                (''refreshAccessTokenEndpoint'', refreshAccessTokenEndpoint),
                (''accessTokenCookieName'', accessTokenCookieName),
                (''csrfTokenApiPath'', csrfTokenApiPath)])))) s = (Returns a, s')"
    by auto
  from configProp_then[OF 4] obtain cfg5 where 5:
    "andThen (configProp c ''ACCESS_TOKEN_COOKIE_NAME'') (\<lambda>accessTokenCookieName.
     andThen (configProp c ''CSRF_TOKEN_API_PATH'') (\<lambda>csrfTokenApiPath.
     ret (JObj [(''loggingService'', ls),
                (''appBaseUrl'', readProp cfg1 ''BASE_URL''),
                (''lmsBaseUrl'', readProp cfg2 ''LMS_BASE_URL''),
                (''loginUrl'', readProp cfg ''LOGIN_URL''),
                (''logoutUrl'', readProp cfg ''LOGIN_URL''),
                (''refreshAccessTokenEndpoint'', readProp cfg5 ''REFRESH_ACCESS_TOKEN_ENDPOINT''),
                (''accessTokenCookieName'', accessTokenCookieName),
                (''csrfTokenApiPath'', csrfTokenApiPath)]))) s = (Returns a, s')"
    by blast
  from configProp_then[OF 5] obtain cfg6 where 6:
    "andThen (configProp c ''CSRF_TOKEN_API_PATH'') (\<lambda>csrfTokenApiPath.
     ret (JObj [(''loggingService'', ls),
                (''appBaseUrl'', readProp cfg1 ''BASE_URL''),
                (''lmsBaseUrl'', readProp cfg2 ''LMS_BASE_URL''),
                (''loginUrl'', readProp cfg ''LOGIN_URL''),
                (''logoutUrl'', readProp cfg ''LOGIN_URL''),
                (''refreshAccessTokenEndpoint'', readProp cfg5 ''REFRESH_ACCESS_TOKEN_ENDPOINT''),
                (''accessTokenCookieName'', readProp cfg6 ''ACCESS_TOKEN_COOKIE_NAME''),
                (''csrfTokenApiPath'', csrfTokenApiPath)])) s = (Returns a, s')"
    by blast
  from configProp_then[OF 6] obtain cfg7 where
    "a = JObj [(''loggingService'', ls),
                (''appBaseUrl'', readProp cfg1 ''BASE_URL''),
                (''lmsBaseUrl'', readProp cfg2 ''LMS_BASE_URL''),
                (''loginUrl'', readProp cfg ''LOGIN_URL''),
                (''logoutUrl'', readProp cfg ''LOGIN_URL''),
                (''refreshAccessTokenEndpoint'', readProp cfg5 ''REFRESH_ACCESS_TOKEN_ENDPOINT''),
                (''accessTokenCookieName'', readProp cfg6 ''ACCESS_TOKEN_COOKIE_NAME''),
                (''csrfTokenApiPath'', readProp cfg7 ''CSRF_TOKEN_API_PATH'')]" "s' = s"
    by (auto simp: ret_def)
  with cfg show ?thesis by simp
qed

lemma authCallOK_simps [simp]:
  "authCallOK c (Publish t p)" "authCallOK c (Invoke k a)" "authCallOK c (Resolved k)"
  "authCallOK c (Returned n)" "n \<noteq> ''configureAuth'' \<Longrightarrow> authCallOK c (Call n a)"
  by (simp_all add: authCallOK_def)

lemma authCallOK_callOnly: "callOnly e \<Longrightarrow> authCallOK c e"
  by (cases e) (auto simp: authCallOK_def callOnly_def wiringCalls_def)

lemma emits_invoke:
  assumes "P (Invoke k args)" and "\<And>e. callOnly e \<Longrightarrow> P e"
  shows "emits P (invoke c k f args)"
proof -
  have w: "emits callOnly m \<Longrightarrow> emits P m" for m :: "'a prog"
    by (erule emits_weaken) (rule assms(2))
  have b: "emits callOnly m \<Longrightarrow> emits P (andThen (emit (Invoke k args)) (\<lambda>_. m))" for m :: "'a prog"
    by (intro emits_andThen emits_emit assms(1) w)
  show ?thesis
  proof (cases f)
    case (JOwn g)
    then show ?thesis
      by (cases g) (simp_all add: invoke_def b emits_noOp emits_auth emits_analytics emits_initError)
  next
    case (JFun n)
    then show ?thesis by (simp add: invoke_def b emits_foreign)
  qed (simp_all add: invoke_def emits_throw)
qed

lemma emits_callHandler:
  assumes "P (Invoke k args)" and "P (Resolved k)" and "\<And>e. callOnly e \<Longrightarrow> P e"
  shows "emits P (callHandler c h k args)"
  unfolding callHandler_def
  by (intro emits_andThen emits_await emits_lift emits_emit emits_invoke assms)

lemma emits_callHandler_auth: "emits (authCallOK c) (callHandler c h k args)"
  by (rule emits_callHandler) (simp_all add: authCallOK_callOnly)

lemma emits_publish: "P (Publish t p) \<Longrightarrow> emits P (publish t p)"
  unfolding publish_def by (rule emits_emit)

lemma emits_authOptions: "emits P (authOptions c)"
  unfolding authOptions_def configProp_def
  by (intro emits_andThen emits_reader emits_ret emits_lift)

lemma emits_then_configureAuth:
  assumes "\<And>v. emits (authCallOK c) (f v)"
  shows "emits (authCallOK c) (andThen (authOptions c) (\<lambda>options.
           andThen (external ''configureAuth'' g [options]) f))"
proof (rule emits_andThen_post[where R = "loginAsLogout c"])
  show "emits (authCallOK c) (authOptions c)" by (rule emits_authOptions)
next
  fix s v s' assume "authOptions c s = (Returns v, s')"
  from authOptions_result[OF this] show "loginAsLogout c v"
    unfolding loginAsLogout_def by blast
next
  fix v assume "loginAsLogout c v"
  then have "authCallOK c (Call ''configureAuth'' [v])" by (simp add: authCallOK_def)
  then show "emits (authCallOK c) (andThen (external ''configureAuth'' g [v]) f)"
    by (intro emits_andThen emits_external assms) simp_all
qed

lemma emits_initSequence: "emits (authCallOK c) (initSequence c ls an rq hy msgs h)"
  unfolding initSequence_def
  by (intro emits_then_configureAuth emits_andThen emits_callHandler_auth emits_publish
        emits_reader emits_external)
     simp_all

lemma emits_initCatch: "emits (authCallOK c) (initCatch c h e)"
  unfolding initCatch_def
  by (intro emits_andThen emits_if emits_callHandler_auth emits_publish emits_lift emits_ret)
     simp_all

lemma withHydration_fields [simp]:
  "getConfig (withHydration c h p) = getConfig c"
  "configureLogging (withHydration c h p) = configureLogging c"
  "getLoggingService (withHydration c h p) = getLoggingService c"
  "logError (withHydration c h p) = logError c"
  "configureAnalytics (withHydration c h p) = configureAnalytics c"
  "identifyAnonymousUser (withHydration c h p) = identifyAnonymousUser c"
  "identifyAuthenticatedUser (withHydration c h p) = identifyAuthenticatedUser c"
  "getAuthenticatedHttpClient (withHydration c h p) = getAuthenticatedHttpClient c"
  "configureAuth (withHydration c h p) = configureAuth c"
  "ensureAuthenticatedUser (withHydration c h p) = ensureAuthenticatedUser c"
  "fetchAuthenticatedUser (withHydration c h p) = fetchAuthenticatedUser c"
  "hydrateAuthenticatedUser (withHydration c h p) = (\<lambda>args w. (Returns (JPromise p), h w))"
  "getAuthenticatedUser (withHydration c h p) = getAuthenticatedUser c"
  "configureI18n (withHydration c h p) = configureI18n c"
  "locationHref (withHydration c h p) = locationHref c"
  "funs (withHydration c h p) = funs c"
  by (simp_all add: withHydration_def)

lemma hydration_call:
  "andThen (external ''hydrateAuthenticatedUser'' (\<lambda>args w. (Returns (JPromise p), h w)) [])
      (\<lambda>_. ret JUndefined) =
   (\<lambda>s. (Returns JUndefined,
      s\<lparr>trace := trace s @ [Call ''hydrateAuthenticatedUser'' [], Returned ''hydrateAuthenticatedUser''],
        ext := h (ext s)\<rparr>))"
  by (rule ext) (simp add: prog_defs)

lemma auth_withHydration:
  "auth (withHydration c h p) = auth (withHydration c h q)"
  by (rule ext) (simp add: auth_def hydration_call cong: if_cong)

lemma invoke_withHydration:
  "invoke (withHydration c h p) k f args = invoke (withHydration c h q) k f args"
proof (cases f)
  case (JOwn g)
  then show ?thesis
    by (cases g) (simp_all add: invoke_def auth_withHydration[of c h p q] analytics_def initError_def cong: if_cong)
qed (simp_all add: invoke_def)

lemma callHandler_withHydration:
  "callHandler (withHydration c h p) = callHandler (withHydration c h q)"
  by (intro ext) (simp add: callHandler_def invoke_withHydration[of c h p _ _ _ q])

lemma authOptions_withHydration: "authOptions (withHydration c h p) = authOptions c"
  by (simp add: authOptions_def configProp_def)

lemma initSequence_withHydration:
  "initSequence (withHydration c h p) = initSequence (withHydration c h q)"
  by (intro ext)
     (simp add: initSequence_def authOptions_withHydration callHandler_withHydration[of c h p q])

lemma initCatch_withHydration:
  "initCatch (withHydration c h p) = initCatch (withHydration c h q)"
  by (intro ext) (simp add: initCatch_def callHandler_withHydration[of c h p q] cong: if_cong)

lemma initialize_withHydration:
  "initialize (withHydration c h p) = initialize (withHydration c h q)"
  by (intro ext)
     (simp add: initialize_def Let_def initSequence_withHydration[of c h p q]
        initCatch_withHydration[of c h p q])



lemma runs_andThen:
  assumes m: "runs m" and f: "\<And>v. runs (f v)"
  shows "runs (andThen m f)"
  unfolding runs_def
proof
  fix s
  from m obtain v s1 where 1: "m s = (Returns v, s1)" unfolding runs_def by blast
  from f[of v] obtain u s2 where 2: "f v s1 = (Returns u, s2)" unfolding runs_def by blast
  from 1 2 have "andThen m f s = (Returns u, s2)" by (simp add: andThen_def)
  then show "\<exists>v s'. andThen m f s = (Returns v, s')" by blast
qed

lemma runs_ret: "runs (ret v)" by (simp add: runs_def ret_def)

lemma runs_emit: "runs (emit e)" by (simp add: runs_def emit_def)

lemma runs_publish: "runs (publish t p)" by (simp add: publish_def runs_emit)

lemma runs_reader: "readsAlways g \<Longrightarrow> runs (reader g)"
  by (simp add: runs_def reader_def readsAlways_def)

lemma runs_foreign:
  fixes f :: "'w extfun"
  assumes "returnsAlways f"
  shows "runs (foreign f args)"
  unfolding runs_def
proof
  fix s :: "'w sys"
  from assms obtain v w' where "f args (ext s) = (Returns v, w')"
    unfolding returnsAlways_def by blast
  then have "foreign f args s = (Returns v, s\<lparr>ext := w'\<rparr>)" by (simp add: foreign_def)
  then show "\<exists>v s'. foreign f args s = (Returns v, s')" by blast
qed

lemma runs_external: "returnsAlways f \<Longrightarrow> runs (external n f args)"
  unfolding external_def by (intro runs_andThen runs_emit runs_foreign runs_ret)

lemma runs_getConfig:
  fixes c :: "'w collab"
  assumes "wiringOK c"
  shows "runs (reader (getConfig c))"
  unfolding runs_def
proof
  fix s :: "'w sys"
  from assms obtain cfg where "getConfig c (ext s) = Returns cfg"
    unfolding wiringOK_def by blast
  then show "\<exists>v s'. reader (getConfig c) s = (Returns v, s')" by (simp add: reader_def)
qed

lemma runs_configProp:
  fixes c :: "'w collab"
  assumes "wiringOK c"
  shows "runs (configProp c k)"
  unfolding runs_def
proof
  fix s :: "'w sys"
  from assms obtain cfg where "getConfig c (ext s) = Returns cfg" "\<not> nullish cfg"
    unfolding wiringOK_def by blast
  then show "\<exists>v s'. configProp c k s = (Returns v, s')"
    by (simp add: configProp_def andThen_def reader_def lift_def getProp_def)
qed

lemma runs_authOptions: "wiringOK c \<Longrightarrow> runs (authOptions c)"
  unfolding authOptions_def
  by (intro runs_andThen runs_configProp runs_ret runs_reader) (simp_all add: wiringOK_def)

lemma runs_callHandler:
  assumes "\<not> nullish h" "handlerResolves c k (readProp h k) args"
  shows "runs (callHandler c h k args)"
proof -
  have "await (andThen (lift (getProp h k)) (\<lambda>f. invoke c k f args)) = await (invoke c k (readProp h k) args)"
    using assms(1) by (simp add: getProp_def andThen_def lift_def await_def)
  moreover have "runs (await (invoke c k (readProp h k) args))"
    using assms(2) by (simp add: handlerResolves_def runs_def)
  ultimately show ?thesis
    unfolding callHandler_def by (intro runs_andThen runs_emit) simp
qed

lemma runs_initSequence:
  assumes w: "wiringOK c" and nh: "\<not> nullish h"
    and hs: "\<forall>p\<in>set phaseOrder. handlerResolves c (handlerKey p) (readProp h (handlerKey p)) (handlerArgs rq hy p)"
  shows "runs (initSequence c ls an rq hy msgs h)"
proof -
  have h: "runs (callHandler c h (handlerKey p) (handlerArgs rq hy p))" for p
  proof (rule runs_callHandler[OF nh])
    have "p \<in> set phaseOrder" by (cases p) (simp_all add: phaseOrder_def)
    with hs show "handlerResolves c (handlerKey p) (readProp h (handlerKey p)) (handlerArgs rq hy p)"
      by blast
  qed
  from w have rd: "runs (reader (getLoggingService c))" "runs (reader (getAuthenticatedHttpClient c))"
    and ex: "\<And>args. runs (external ''configureLogging'' (configureLogging c) args)"
      "\<And>args. runs (external ''configureAuth'' (configureAuth c) args)"
      "\<And>args. runs (external ''configureAnalytics'' (configureAnalytics c) args)"
      "\<And>args. runs (external ''configureI18n'' (configureI18n c) args)"
    by (simp_all add: wiringOK_def runs_reader runs_external)
  show ?thesis
    unfolding initSequence_def
    using h[of PubSub] h[of Config] h[of Logging] h[of Auth] h[of Analytics] h[of I18n] h[of Ready]
    by (intro runs_andThen runs_publish runs_getConfig[OF w] runs_authOptions[OF w] rd ex) simp_all
qed

lemma published_expected: "published (expected rq hy) = completions phaseOrder"
  by (simp add: expected_unfold published_def completions_def phaseOrder_def)

lemma nullish_not_truthy: "nullish v \<Longrightarrow> \<not> truthy v"
  by (cases v) simp_all

lemma demo_wiringOK: "wiringOK demoCollab"
  by (simp add: wiringOK_def readsAlways_def returnsAlways_def demoConfig_def)

lemma demo_handlers_resolve:
  "\<forall>p\<in>set phaseOrder.
      handlerResolves demoCollab (handlerKey p) (readProp (handlersFor (JObj [])) (handlerKey p))
        (handlerArgs (requireUserFor (JObj [])) (hydrateUserFor (JObj [])) p)"
  by (simp add: phaseOrder_def handlersFor_def requireUserFor_def hydrateUserFor_def dflt_def
        applyOverrideHandlers_def handlerResolves_def invoke_def noOp_def auth_def analytics_def
        arg_def getProp_def prog_defs nullish_not_truthy)


lemma andThen_assoc: "andThen (andThen m f) g = andThen m (\<lambda>v. andThen (f v) g)"
  by (rule ext) (simp add: andThen_def split: prod.splits outcome.splits)

lemma initSequence_split:
  "initSequence c ls an rq hy msgs h =
     andThen (beforeAuth c ls h) (\<lambda>_.
     andThen (authOptions c) (\<lambda>options.
     andThen (external ''configureAuth'' (configureAuth c) [options]) (\<lambda>_.
     fromAuthHandler c an rq hy msgs h)))"
  by (simp add: initSequence_def beforeAuth_def fromAuthHandler_def andThen_assoc)

lemma authOptions_eval:
  assumes "getLoggingService c (ext s) = Returns logger"
    and "getConfig c (ext s) = Returns cfg" and "\<not> nullish cfg"
  shows "authOptions c s =
     (Returns (JObj [(''loggingService'', logger),
                (''appBaseUrl'', readProp cfg ''BASE_URL''),
                (''lmsBaseUrl'', readProp cfg ''LMS_BASE_URL''),
                (''loginUrl'', readProp cfg ''LOGIN_URL''),
                (''logoutUrl'', readProp cfg ''LOGIN_URL''),
                (''refreshAccessTokenEndpoint'', readProp cfg ''REFRESH_ACCESS_TOKEN_ENDPOINT''),
                (''accessTokenCookieName'', readProp cfg ''ACCESS_TOKEN_COOKIE_NAME''),
                (''csrfTokenApiPath'', readProp cfg ''CSRF_TOKEN_API_PATH'')]), s)"
  using assms by (simp add: authOptions_def configProp_def getProp_def prog_defs)

lemma external_eval:
  "external n f args s =
     (case f args (ext s) of
        (Returns y, w) \<Rightarrow> (Returns y, \<lparr>trace = trace s @ [Call n args, Returned n], ext = w\<rparr>)
      | (Throws e, w) \<Rightarrow> (Throws e, \<lparr>trace = trace s @ [Call n args], ext = w\<rparr>)
      | (Never, w) \<Rightarrow> (Never, \<lparr>trace = trace s @ [Call n args], ext = w\<rparr>))"
  by (simp add: prog_defs split: prod.splits outcome.splits)

lemma refusing_fields [simp]:
  "getConfig refusingAuth = getConfig demoCollab"
  "configureLogging refusingAuth = configureLogging demoCollab"
  "getLoggingService refusingAuth = getLoggingService demoCollab"
  "funs refusingAuth = funs demoCollab"
  "configureAuth refusingAuth = (\<lambda>a w. (Throws (readProp (arg 0 a) ''logoutUrl''), w))"
  by (simp_all add: refusingAuth_def)

lemma demo_refusing_before:
  "beforeAuth refusingAuth NewRelicLoggingService (handlersFor (JObj [])) (start demoUser) =
     (Returns JUndefined, \<lparr>trace = untilAuthWiring, ext = demoUser\<rparr>)"
  by (simp add: beforeAuth_def untilAuthWiring_def demo_defs)

lemma demo_refusing_try:
  "trySequence refusingAuth (JObj []) (start demoUser) =
     (Throws (JStr ''https://lms.test/login''),
      \<lparr>trace = untilAuthWiring @ [Call ''configureAuth'' [demoAuthOptions]], ext = demoUser\<rparr>)"
  by (simp add: untilAuthWiring_def demo_defs)

lemma stops_ready:
  "\<forall>t\<in>set (stops rq hy). Resolved ''ready'' \<in> set t \<longrightarrow> t = expected rq hy"
  by (simp add: stops_def expected_unfold)

lemma expected_all_resolved:
  "\<forall>p\<in>set phaseOrder. Resolved (handlerKey p) \<in> set (expected rq hy)"
  by (simp add: expected_unfold phaseOrder_def)

lemma initCatch_no_ready: "emits (\<lambda>ev. ev \<noteq> Resolved ''ready'') (initCatch c h e)"
  unfolding initCatch_def
  by (intro emits_andThen emits_if emits_callHandler emits_publish emits_lift emits_ret)
     (auto simp: callOnly_def split: event.splits)

lemma try_returns:
  assumes nn: "\<not> nullish options" and t: "trySequence c options s = (Returns v, s1)"
  shows "await (initialize c [options]) s = (Returns JUndefined, s1)
       \<and> (\<forall>p\<in>set phaseOrder. Resolved (handlerKey p) \<in> set (newEvents s s1))
       \<and> published (newEvents s s1) = completions phaseOrder"
proof -
  have run: "await (initialize c [options]) s = (Returns JUndefined, s1)"
    using nn t by (simp add: initialize_run andThen_def tryCatch_def ret_def)
  from trySequence_stops[OF t] obtain new where
    new: "trace s1 = trace s @ new"
      "goodStop (expected (requireUserFor options) (hydrateUserFor options)) (Returns v) (control new)"
    by blast
  then have c: "control new = expected (requireUserFor options) (hydrateUserFor options)"
    by (simp add: goodStop_def)
  have ne: "newEvents s s1 = new" using new(1) by (rule newEvents_append)
  have p: "published new = completions phaseOrder"
    using c published_control[of new] published_expected by metis
  have r: "\<forall>p\<in>set phaseOrder. Resolved (handlerKey p) \<in> set new"
  proof
    fix p assume "p \<in> set phaseOrder"
    then have "Resolved (handlerKey p) \<in> set (control new)"
      using expected_all_resolved c by metis
    then show "Resolved (handlerKey p) \<in> set new" by (simp add: in_control)
  qed
  from run p r show ?thesis unfolding ne by blast
qed

lemma all_resolved_try_returns:
  assumes nn: "\<not> nullish options" and run: "await (initialize c [options]) s = (r, s')"
    and all: "\<forall>p\<in>set phaseOrder. Resolved (handlerKey p) \<in> set (newEvents s s')"
  shows "\<exists>v. trySequence c options s = (Returns v, s')"
proof -
  let ?exp = "expected (requireUserFor options) (hydrateUserFor options)"
  have ready: "Resolved ''ready'' \<in> set (newEvents s s')"
    using all by (simp add: phaseOrder_def)
  have stop: "trySequence c options s = (rt, s1) \<Longrightarrow> \<not> isReturns rt \<Longrightarrow>
      Resolved ''ready'' \<notin> set (newEvents s s1)" for rt s1
  proof -
    assume t: "trySequence c options s = (rt, s1)" and nr: "\<not> isReturns rt"
    from trySequence_stops[OF t] obtain new where
      new: "trace s1 = trace s @ new" "goodStop ?exp rt (control new)" by blast
    have "control new \<in> set (stops (requireUserFor options) (hydrateUserFor options))"
      using new(2) by (rule goodStop_stops)
    moreover have "control new \<noteq> ?exp" using new(2) nr by (simp add: goodStop_def)
    ultimately have "Resolved ''ready'' \<notin> set (control new)" using stops_ready by blast
    then show ?thesis using new(1) by (simp add: in_control newEvents_def)
  qed
  from nn run show ?thesis
  proof (cases rule: run_cases)
    case (finished v)
    then show ?thesis by blast
  next
    case hang
    from stop[OF hang(1)] ready show ?thesis by simp
  next
    case (caught e s1 rc)
    from stop[OF caught(1)] have 1: "Resolved ''ready'' \<notin> set (newEvents s s1)" by simp
    from trySequence_stops[OF caught(1)] obtain n1 where n1: "trace s1 = trace s @ n1" by blast
    from initCatch_no_ready caught(2) obtain n2 where
      n2: "trace s' = trace s1 @ n2" "list_all (\<lambda>ev. ev \<noteq> Resolved ''ready'') n2"
      unfolding emits_def by blast
    from 1 n1 n2 have "Resolved ''ready'' \<notin> set (newEvents s s')"
      by (auto simp: newEvents_def list_all_iff)
    with ready show ?thesis by simp
  qed
qed

lemma demo_required_run:
  "await (initialize demoCollab [requireUserOptions]) (start demoUser) =
     (Returns JUndefined, \<lparr>trace = requiredLoginTrace, ext = demoUser\<rparr>)"
  by (simp add: demo_defs requiredLoginTrace_def ensured_def)

section \<open>The default handlers\<close>

text \<open>
  C6. The default auth handler, with a hydration that is an async function. Its first
  collaborator call is \<open>ensureAuthenticatedUser\<close> with the current location when
  \<open>requireUser\<close> is truthy and \<open>fetchAuthenticatedUser\<close> otherwise, and it is awaited: when
  the promise of that call is rejected the handler rejects with the same value and makes no
  further call. When it is fulfilled, the handler calls \<open>hydrateAuthenticatedUser\<close>
  exactly if \<open>hydrateUser\<close> is truthy and the accessor returns something other than
  \<open>null\<close>, and then resolves. What the hydration promise does plays no part: the handler
  is the same function for every settlement \<open>p\<close>, \<open>q\<close> of that promise, and so is
  \<open>initialize\<close>, hence a hydration that is rejected later changes neither the outcome of
  the auth phase nor what is published.
\<close>

theorem auth_fires_hydration_and_forgets:
  "auth (withHydration c h p) = auth (withHydration c h q)
   \<and> initialize (withHydration c h p) = initialize (withHydration c h q)
   \<and> (truthy requireUser \<and>
        ensureAuthenticatedUser c [locationHref c (ext s)] (ext s) = (Returns v, w1) \<and>
        settle v = Throws e \<longrightarrow>
        await (auth (withHydration c h p) [requireUser, hydrateUser]) s =
          (Throws e,
           \<lparr>trace = trace s @ [Call ''ensureAuthenticatedUser'' [locationHref c (ext s)],
                                 Returned ''ensureAuthenticatedUser''],
            ext = w1\<rparr>))
   \<and> (truthy requireUser \<and>
        ensureAuthenticatedUser c [locationHref c (ext s)] (ext s) = (Returns v, w1) \<and>
        settle v = Returns x \<and> (truthy hydrateUser \<longrightarrow> getAuthenticatedUser c w1 = Returns u) \<longrightarrow>
        await (auth (withHydration c h p) [requireUser, hydrateUser]) s =
          (Returns JUndefined,
           \<lparr>trace = trace s @ [Call ''ensureAuthenticatedUser'' [locationHref c (ext s)],
                                 Returned ''ensureAuthenticatedUser''] @
                     (if truthy hydrateUser \<and> u \<noteq> JNull
                      then [Call ''hydrateAuthenticatedUser'' [],
                            Returned ''hydrateAuthenticatedUser'']
                      else []),
            ext = (if truthy hydrateUser \<and> u \<noteq> JNull then h w1 else w1)\<rparr>))
   \<and> (\<not> truthy requireUser \<and>
        fetchAuthenticatedUser c [] (ext s) = (Returns v, w1) \<and>
        settle v = Throws e \<longrightarrow>
        await (auth (withHydration c h p) [requireUser, hydrateUser]) s =
          (Throws e,
           \<lparr>trace = trace s @ [Call ''fetchAuthenticatedUser'' [],
                                 Returned ''fetchAuthenticatedUser''],
            ext = w1\<rparr>))
   \<and> (\<not> truthy requireUser \<and>
        fetchAuthenticatedUser c [] (ext s) = (Returns v, w1) \<and>
        settle v = Returns x \<and> (truthy hydrateUser \<longrightarrow> getAuthenticatedUser c w1 = Returns u) \<longrightarrow>
        await (auth (withHydration c h p) [requireUser, hydrateUser]) s =
          (Returns JUndefined,
           \<lparr>trace = trace s @ [Call ''fetchAuthenticatedUser'' [],
                                 Returned ''fetchAuthenticatedUser''] @
                     (if truthy hydrateUser \<and> u \<noteq> JNull
                      then [Call ''hydrateAuthenticatedUser'' [],
                            Returned ''hydrateAuthenticatedUser'']
                      else []),
            ext = (if truthy hydrateUser \<and> u \<noteq> JNull then h w1 else w1)\<rparr>))"
proof (intro conjI impI)
  show "auth (withHydration c h p) = auth (withHydration c h q)" by (rule auth_withHydration)
  show "initialize (withHydration c h p) = initialize (withHydration c h q)"
    by (rule initialize_withHydration)
qed (auto simp: auth_def arg_def await_async hydration_call prog_defs)

text \<open>
  C6 at the concrete collaborators, whose hydration promise is rejected: the handler
  resolves after the fetch and the hydration call, and the whole run publishes the seven
  completion topics and nothing else.
\<close>

theorem auth_fires_hydration_and_forgets_witness:
  "initialize (withHydration demoCollab id (Throws (JStr ''hydration failed''))) =
     initialize (withHydration demoCollab id (Returns JUndefined))
   \<and> \<not> truthy (JBool False)
   \<and> fetchAuthenticatedUser demoCollab [] (ext (start demoUser)) =
       (Returns (JPromise (Returns JUndefined)), demoUser)
   \<and> settle (JPromise (Returns JUndefined)) = Returns JUndefined
   \<and> truthy (JBool True)
   \<and> getAuthenticatedUser demoCollab demoUser = Returns demoUser
   \<and> demoUser \<noteq> JNull
   \<and> await (auth (withHydration demoCollab id (Throws (JStr ''hydration failed'')))
              [JBool False, JBool True]) (start demoUser) =
       (Returns JUndefined, \<lparr>trace = fetched @ hydrated, ext = demoUser\<rparr>)
   \<and> await (initialize (withHydration demoCollab id (Throws (JStr ''hydration failed'')))
              [hydrateOptions]) (start demoUser) =
       (Returns JUndefined, \<lparr>trace = hydratedTrace, ext = demoUser\<rparr>)
   \<and> Call ''hydrateAuthenticatedUser'' [] \<in> set hydratedTrace
   \<and> published hydratedTrace = completions phaseOrder"
proof -
  have f: "fetchAuthenticatedUser demoCollab [] (ext (start demoUser)) =
       (Returns (JPromise (Returns JUndefined)), demoUser)"
    "getAuthenticatedUser demoCollab demoUser = Returns demoUser" "demoUser \<noteq> JNull"
    by (simp_all add: start_def demoUser_def)
  have e: "withHydration demoCollab id (Throws (JStr ''hydration failed'')) = demoCollab"
    by (simp add: withHydration_def demoCollab_def)
  have b: "Call ''hydrateAuthenticatedUser'' [] \<in> set hydratedTrace"
    "published hydratedTrace = completions phaseOrder"
    by (simp_all add: trace_defs)
  have t: "trace (start demoUser) = []" by (simp add: start_def)
  have r: "await (initialize (withHydration demoCollab id (Throws (JStr ''hydration failed'')))
              [hydrateOptions]) (start demoUser) =
       (Returns JUndefined, \<lparr>trace = hydratedTrace, ext = demoUser\<rparr>)"
    using demo_hydrated_run by (simp only: e)
  show ?thesis
    using auth_fires_hydration_and_forgets
      [where c = demoCollab and h = id and p = "Throws (JStr ''hydration failed'')"
         and q = "Returns JUndefined" and requireUser = "JBool False" and hydrateUser = "JBool True"
         and s = "start demoUser" and v = "JPromise (Returns JUndefined)" and ?w1.0 = demoUser
         and e = JNull and x = JUndefined and u = demoUser]
      f b t r
    by (auto simp: fetched_def hydrated_def)
qed

text \<open>
  C7. The default analytics handler reads the current user from the accessor. When the
  accessor hands back \<open>u\<close>, the handler runs exactly one identification function of the
  analytics collaborator, in the state it was called in: \<open>identifyAuthenticatedUser\<close> with
  \<open>u.userId\<close> when \<open>u\<close> and \<open>u.userId\<close> are both truthy (a user is present and carries
  an identifier), \<open>identifyAnonymousUser\<close> with no argument in every other case. The
  handler leaves the collaborators in the state that call leaves them in and settles as the
  call completes: it resolves when the call returns and rejects with what the call
  throws. When the accessor itself throws, no identification is made and the handler
  rejects with that value.
\<close>

theorem analytics_identifies_exactly_once:
  fixes s :: "'w sys"
  shows
  "(getAuthenticatedUser c (ext s) = Returns u \<and>
    (if truthy u \<and> truthy (readProp u ''userId'')
     then identifyAuthenticatedUser c [readProp u ''userId''] (ext s)
     else identifyAnonymousUser c [] (ext s)) = (r, w') \<longrightarrow>
      await (analytics c args) s =
        ((case r of Returns v \<Rightarrow> Returns JUndefined | Throws x \<Rightarrow> Throws x | Never \<Rightarrow> Never),
         \<lparr>trace = trace s @
            (if truthy u \<and> truthy (readProp u ''userId'')
             then Call ''identifyAuthenticatedUser'' [readProp u ''userId''] #
                  (if isReturns r then [Returned ''identifyAuthenticatedUser''] else [])
             else Call ''identifyAnonymousUser'' [] #
                  (if isReturns r then [Returned ''identifyAnonymousUser''] else [])),
          ext = w'\<rparr>)
      \<and> calls (newEvents s (snd (await (analytics c args) s))) =
          [if truthy u \<and> truthy (readProp u ''userId'')
           then Call ''identifyAuthenticatedUser'' [readProp u ''userId'']
           else Call ''identifyAnonymousUser'' []])
   \<and> (getAuthenticatedUser c (ext s) = Throws e \<longrightarrow>
        await (analytics c args) s = (Throws e, s))
   \<and> (getAuthenticatedUser c (ext s) = Never \<longrightarrow>
        await (analytics c args) s = (Never, s))"
proof (intro conjI impI)
  assume a: "getAuthenticatedUser c (ext s) = Returns u \<and>
    (if truthy u \<and> truthy (readProp u ''userId'')
     then identifyAuthenticatedUser c [readProp u ''userId''] (ext s)
     else identifyAnonymousUser c [] (ext s)) = (r, w')"
  have nn: "truthy u \<Longrightarrow> \<not> nullish u" by (cases u) simp_all
  show run: "await (analytics c args) s =
        ((case r of Returns v \<Rightarrow> Returns JUndefined | Throws x \<Rightarrow> Throws x | Never \<Rightarrow> Never),
         \<lparr>trace = trace s @
            (if truthy u \<and> truthy (readProp u ''userId'')
             then Call ''identifyAuthenticatedUser'' [readProp u ''userId''] #
                  (if isReturns r then [Returned ''identifyAuthenticatedUser''] else [])
             else Call ''identifyAnonymousUser'' [] #
                  (if isReturns r then [Returned ''identifyAnonymousUser''] else [])),
          ext = w'\<rparr>)"
    using a nn
    by (cases r; cases "truthy u"; cases "truthy (readProp u ''userId'')")
       (simp_all add: analytics_def await_async getProp_def prog_defs)
  show "calls (newEvents s (snd (await (analytics c args) s))) =
          [if truthy u \<and> truthy (readProp u ''userId'')
           then Call ''identifyAuthenticatedUser'' [readProp u ''userId'']
           else Call ''identifyAnonymousUser'' []]"
    unfolding run by (simp add: newEvents_def calls_def)
next
  assume "getAuthenticatedUser c (ext s) = Throws e"
  then show "await (analytics c args) s = (Throws e, s)"
    by (simp add: analytics_def await_async prog_defs)
next
  assume "getAuthenticatedUser c (ext s) = Never"
  then show "await (analytics c args) s = (Never, s)"
    by (simp add: analytics_def await_async prog_defs)
qed

text \<open>
  C7 with the user 7 logged in and an analytics service that keeps the identifier it is
  given: after the handler the service holds 7.
\<close>

theorem analytics_identifies_exactly_once_witness:
  "getAuthenticatedUser taggingAnalytics (ext (start demoUser)) = Returns demoUser
   \<and> truthy demoUser
   \<and> readProp demoUser ''userId'' = JNum 7
   \<and> identifyAuthenticatedUser taggingAnalytics [JNum 7] (ext (start demoUser)) =
       (Returns JUndefined, JObj [(''identifiedAs'', JNum 7)])
   \<and> await (analytics taggingAnalytics []) (start demoUser) =
       (Returns JUndefined, \<lparr>trace = identified, ext = JObj [(''identifiedAs'', JNum 7)]\<rparr>)
   \<and> calls identified = [Call ''identifyAuthenticatedUser'' [JNum 7]]"
proof -
  have f: "getAuthenticatedUser taggingAnalytics (ext (start demoUser)) = Returns demoUser"
    "truthy demoUser" "readProp demoUser ''userId'' = JNum 7"
    "identifyAuthenticatedUser taggingAnalytics [JNum 7] (ext (start demoUser)) =
       (Returns JUndefined, JObj [(''identifiedAs'', JNum 7)])"
    "calls identified = [Call ''identifyAuthenticatedUser'' [JNum 7]]"
    "trace (start demoUser) = []"
    by (simp_all add: taggingAnalytics_def start_def demoUser_def arg_def calls_def identified_def)
  show ?thesis
    using analytics_identifies_exactly_once
      [where c = taggingAnalytics and s = "start demoUser" and u = demoUser
         and r = "Returns JUndefined" and w' = "JObj [(''identifiedAs'', JNum 7)]"
         and args = "[]" and e = JNull]
      f
    by (auto simp: identified_def)
qed

text \<open>
  C8, as amended. The default error handler forwards the error to \<open>logError\<close> and then
  settles the way that call completes: its promise is fulfilled when \<open>logError\<close> returns,
  and it is rejected with the thrown value when \<open>logError\<close> throws. Nothing in
  \<open>initError\<close> catches.
\<close>

theorem initError_settles_as_logError:
  assumes "logError c [e] (ext s) = (r, w')"
  shows "await (initError c [e]) s =
           ((case r of Returns v \<Rightarrow> Returns JUndefined | Throws x \<Rightarrow> Throws x | Never \<Rightarrow> Never),
            \<lparr>trace = trace s @ (Call ''logError'' [e] # (if isReturns r then [Returned ''logError''] else [])),
             ext = w'\<rparr>)"
  using assms
  by (cases r) (simp_all add: initError_def arg_def prog_defs)

text \<open>
  C8, as amended, at the concrete collaborators, whose \<open>logError\<close> returns.
\<close>

theorem initError_settles_as_logError_witness:
  "logError demoCollab [JStr ''boom''] (ext (start JNull)) = (Returns JUndefined, JNull) \<and>
   await (initError demoCollab [JStr ''boom'']) (start JNull) =
     (Returns JUndefined,
      \<lparr>trace = [Call ''logError'' [JStr ''boom''], Returned ''logError''], ext = JNull\<rparr>)"
  using initError_settles_as_logError [of demoCollab "JStr ''boom''" "start JNull" "Returns JUndefined" JNull]
  by (simp add: start_def)

text \<open>
  C8 as stated fails: with a \<open>logError\<close> that throws, the default error handler rejects
  with the thrown value instead of resolving.
\<close>

theorem initError_rejects_when_logError_throws:
  "fst (await (initError brokenLogger [JStr ''boom'']) (start JNull)) = Throws (JStr ''logger down'')"
  by (simp add: brokenLogger_def initError_def arg_def prog_defs start_def)

section \<open>\<open>initialize\<close>: its parameter\<close>

text \<open>
  C10. Called with no argument, with \<open>undefined\<close> or with \<open>null\<close>, \<open>initialize\<close> rejects with
  the type error of the failed destructuring and leaves the state as it was: no handler has
  been called and nothing has been published. Called with the empty record it runs the
  sequence with the documented defaults: the two default services, \<open>false\<close> for both flags,
  no messages and the default handler table.
\<close>

theorem initialize_without_options_rejects:
  "await (initialize c []) s = (Throws typeError, s)
   \<and> await (initialize c [JUndefined]) s = (Throws typeError, s)
   \<and> await (initialize c [JNull]) s = (Throws typeError, s)
   \<and> initialize c [JObj []] =
      async (andThen
        (tryCatch
           (initSequence c NewRelicLoggingService SegmentAnalyticsService
              (JBool False) (JBool False) JUndefined (applyOverrideHandlers (JObj [])))
           (initCatch c (applyOverrideHandlers (JObj []))))
        (\<lambda>_. ret JUndefined))
   \<and> initialize c [JObj []] =
      initialize c [JObj [(''loggingService'', NewRelicLoggingService),
                          (''analyticsService'', SegmentAnalyticsService),
                          (''requireAuthenticatedUser'', JBool False),
                          (''hydrateAuthenticatedUser'', JBool False),
                          (''handlers'', JObj [])]]"
  by (simp add: initialize_def arg_def dflt_def Let_def await_async throw_def)

section \<open>\<open>initialize\<close>: the sequence\<close>

text \<open>
  C1, as amended. For every options record and every run of \<open>initialize\<close> on it: if in
  this run the await on the handler of each of the seven phases returned, then no handler
  and no wiring step threw (the \<open>try\<close> block ran to its end), \<open>initialize\<close> resolves, and
  what it has published is exactly \<open>APP.PUBSUB_INITIALIZED\<close>, \<open>APP.CONFIG_INITIALIZED\<close>,
  \<open>APP.LOGGING_INITIALIZED\<close>, \<open>APP.AUTH_INITIALIZED\<close>, \<open>APP.ANALYTICS_INITIALIZED\<close>,
  \<open>APP.I18N_INITIALIZED\<close>, \<open>APP.READY\<close>, in this order, each once; \<open>APP.INIT_ERROR\<close> is
  not among them. Likewise, a \<open>try\<close> block that runs to its end (nothing in it throws,
  nothing stays pending) has every handler resolved and the same seven topics published.
  Such runs exist whenever the collaborators cannot fail: when no wiring step can throw
  and every phase handler is a function whose promise is fulfilled in every state,
  \<open>initialize\<close> resolves with the seven topics published.
\<close>

theorem all_topics_in_order_when_everything_resolves:
  assumes nn: "\<not> nullish options"
  shows
   "(await (initialize c [options]) s = (r, s') \<and>
     (\<forall>p\<in>set phaseOrder. Resolved (handlerKey p) \<in> set (newEvents s s')) \<longrightarrow>
       r = Returns JUndefined \<and> (\<exists>v. trySequence c options s = (Returns v, s')) \<and>
       published (newEvents s s') = completions phaseOrder)
    \<and> (trySequence c options s = (Returns v, s1) \<longrightarrow>
         await (initialize c [options]) s = (Returns JUndefined, s1) \<and>
         (\<forall>p\<in>set phaseOrder. Resolved (handlerKey p) \<in> set (newEvents s s1)) \<and>
         published (newEvents s s1) = completions phaseOrder)
    \<and> (wiringOK c \<and>
        (\<forall>p\<in>set phaseOrder.
           handlerResolves c (handlerKey p) (readProp (handlersFor options) (handlerKey p))
             (handlerArgs (requireUserFor options) (hydrateUserFor options) p)) \<longrightarrow>
         (\<exists>s'. await (initialize c [options]) s = (Returns JUndefined, s') \<and>
               published (newEvents s s') = completions phaseOrder))"
proof (intro conjI impI)
  assume a: "await (initialize c [options]) s = (r, s') \<and>
     (\<forall>p\<in>set phaseOrder. Resolved (handlerKey p) \<in> set (newEvents s s'))"
  from all_resolved_try_returns[OF nn conjunct1[OF a] conjunct2[OF a]]
  obtain v where t: "trySequence c options s = (Returns v, s')" by blast
  from try_returns[OF nn t] a
  show "r = Returns JUndefined" "published (newEvents s s') = completions phaseOrder" by auto
  from t show "\<exists>v. trySequence c options s = (Returns v, s')" by blast
next
  assume t: "trySequence c options s = (Returns v, s1)"
  from try_returns[OF nn t]
  show "await (initialize c [options]) s = (Returns JUndefined, s1)"
    "\<forall>p\<in>set phaseOrder. Resolved (handlerKey p) \<in> set (newEvents s s1)"
    "published (newEvents s s1) = completions phaseOrder" by blast+
next
  assume a: "wiringOK c \<and>
        (\<forall>p\<in>set phaseOrder.
           handlerResolves c (handlerKey p) (readProp (handlersFor options) (handlerKey p))
             (handlerArgs (requireUserFor options) (hydrateUserFor options) p))"
  have "runs (trySequence c options)"
    unfolding trySequence_def
    using conjunct1[OF a] handlersFor_not_nullish conjunct2[OF a] by (rule runs_initSequence)
  then obtain v s1 where t: "trySequence c options s = (Returns v, s1)"
    unfolding runs_def by blast
  from try_returns[OF nn t]
  show "\<exists>s'. await (initialize c [options]) s = (Returns JUndefined, s') \<and>
               published (newEvents s s') = completions phaseOrder" by blast
qed

text \<open>
  C1, as amended, at two runs with a user logged in: one that requires a login (the
  default auth handler could fail in another state, and does not in this run), and the
  run on the empty options record.
\<close>

theorem all_topics_in_order_when_everything_resolves_witness:
  "\<not> nullish requireUserOptions
   \<and> await (initialize demoCollab [requireUserOptions]) (start demoUser) =
       (Returns JUndefined, \<lparr>trace = requiredLoginTrace, ext = demoUser\<rparr>)
   \<and> list_all (\<lambda>p. Resolved (handlerKey p) \<in> set requiredLoginTrace) phaseOrder
   \<and> published requiredLoginTrace =
       [Publish ''APP.PUBSUB_INITIALIZED'' None, Publish ''APP.CONFIG_INITIALIZED'' None,
        Publish ''APP.LOGGING_INITIALIZED'' None, Publish ''APP.AUTH_INITIALIZED'' None,
        Publish ''APP.ANALYTICS_INITIALIZED'' None, Publish ''APP.I18N_INITIALIZED'' None,
        Publish ''APP.READY'' None]
   \<and> \<not> nullish (JObj [])
   \<and> wiringOK demoCollab
   \<and> handlerResolves demoCollab ''auth'' (JOwn AuthFn) [JBool False, JBool False]
   \<and> await (initialize demoCollab [JObj []]) (start demoUser) =
       (Returns JUndefined, \<lparr>trace = completeTrace, ext = demoUser\<rparr>)
   \<and> published completeTrace = completions phaseOrder"
proof -
  have a: "\<not> nullish requireUserOptions" "\<not> nullish (JObj [])"
    by (simp_all add: requireUserOptions_def)
  have r: "\<forall>p\<in>set phaseOrder. Resolved (handlerKey p) \<in>
             set (newEvents (start demoUser) \<lparr>trace = requiredLoginTrace, ext = demoUser\<rparr>)"
    by (simp add: requiredLoginTrace_def ensured_def trace_defs)
  have l: "list_all (\<lambda>p. Resolved (handlerKey p) \<in> set requiredLoginTrace) phaseOrder"
    by (simp add: requiredLoginTrace_def ensured_def trace_defs)
  have n: "newEvents (start demoUser) \<lparr>trace = requiredLoginTrace, ext = demoUser\<rparr> = requiredLoginTrace"
    "newEvents (start demoUser) \<lparr>trace = completeTrace, ext = demoUser\<rparr> = completeTrace"
    by (simp_all add: newEvents_def start_def)
  have b: "completions phaseOrder =
       [Publish ''APP.PUBSUB_INITIALIZED'' None, Publish ''APP.CONFIG_INITIALIZED'' None,
        Publish ''APP.LOGGING_INITIALIZED'' None, Publish ''APP.AUTH_INITIALIZED'' None,
        Publish ''APP.ANALYTICS_INITIALIZED'' None, Publish ''APP.I18N_INITIALIZED'' None,
        Publish ''APP.READY'' None]"
    by (simp add: completions_def phaseOrder_def topic_defs)
  have h: "handlerResolves demoCollab ''auth'' (JOwn AuthFn) [JBool False, JBool False]"
    using demo_handlers_resolve
    by (simp add: phaseOrder_def handlersFor_def requireUserFor_def hydrateUserFor_def dflt_def
          applyOverrideHandlers_def)
  from all_topics_in_order_when_everything_resolves
         [OF a(1), where c = demoCollab and s = "start demoUser" and r = "Returns JUndefined"
            and s' = "\<lparr>trace = requiredLoginTrace, ext = demoUser\<rparr>"]
       demo_required_run r
  have 1: "published requiredLoginTrace = completions phaseOrder"
    unfolding n by blast
  from all_topics_in_order_when_everything_resolves
         [OF a(2), where c = demoCollab and s = "start demoUser"]
       demo_wiringOK demo_handlers_resolve demo_complete_run
  have 2: "published completeTrace = completions phaseOrder"
    using n(2) by (metis prod.inject)
  show ?thesis using a l 1 2 b h demo_wiringOK demo_required_run demo_complete_run by simp
qed

text \<open>
  C1 as stated fails: that nothing throws is not enough. With a \<open>ready\<close> handler whose
  promise never settles, no handler and no wiring step throws, yet the run stays in the
  await: six topics are published and \<open>APP.READY\<close> never is.
\<close>

theorem hanging_handler_stalls_the_sequence:
  "await (initialize demoCollab [hangingReadyOptions]) (start demoUser) =
     (Never, \<lparr>trace = hangingTrace, ext = demoUser\<rparr>)
   \<and> published hangingTrace = completions [PubSub, Config, Logging, Auth, Analytics, I18n]
   \<and> Publish APP_READY None \<notin> set hangingTrace"
proof -
  have b: "published hangingTrace = completions [PubSub, Config, Logging, Auth, Analytics, I18n]"
    "Publish APP_READY None \<notin> set hangingTrace"
    by (simp_all add: trace_defs)
  show ?thesis using b demo_hanging_run by simp
qed



text \<open>
  C3. If the \<open>try\<close> block throws a value whose \<open>isRedirecting\<close> property is truthy (the
  block is made of the handlers, the wiring and the publishing only, so a handler or a
  wiring step threw it), \<open>initialize\<close> resolves in the state of the throw: what has been
  published is exactly the completion topics of the phases before the first one whose
  handler did not resolve (the failing phase), in order; the topics of the failing phase
  and of every later phase, \<open>APP.READY\<close> among them, are not published; the error handler
  is not called and \<open>APP.INIT_ERROR\<close> is not published.
\<close>

theorem redirect_stops_silently:
  assumes nn: "\<not> nullish options"
    and thr: "trySequence c options s = (Throws v, s1)"
    and mark: "truthy (readProp v ''isRedirecting'')"
  shows "await (initialize c [options]) s = (Returns JUndefined, s1)
       \<and> published (newEvents s s1) = completions (completed (newEvents s s1))
       \<and> completed (newEvents s s1) \<noteq> phaseOrder
       \<and> (\<forall>p\<in>set (drop (length (completed (newEvents s s1))) phaseOrder).
             Publish (completionTopic p) None \<notin> set (newEvents s s1))
       \<and> (\<forall>a. Invoke ''initError'' a \<notin> set (newEvents s s1))
       \<and> (\<forall>x. Publish APP_INIT_ERROR x \<notin> set (newEvents s s1))"
proof -
  have nv: "\<not> nullish v" using mark by (cases v) simp_all
  have run: "await (initialize c [options]) s = (Returns JUndefined, s1)"
    using nn thr nv mark
    by (simp add: initialize_run andThen_def tryCatch_def initCatch_def getProp_def lift_def ret_def)
  from trySequence_stops[OF thr] obtain new where
    tr: "trace s1 = trace s @ new"
    and g: "goodStop (expected (requireUserFor options) (hydrateUserFor options)) (Throws v) (control new)"
    by blast
  let ?t = "control new"
  have ne: "newEvents s s1 = new" using tr by (rule newEvents_append)
  have st: "?t \<in> set (stops (requireUserFor options) (hydrateUserFor options))"
    using g by (rule goodStop_stops)
  have nf: "?t \<noteq> expected (requireUserFor options) (hydrateUserFor options)"
    using g by (simp add: goodStop_def)
  have a: "published new = completions (completed new)"
    using stops_published st published_control[of new] completed_control[of new] by metis
  have b: "completed new \<noteq> phaseOrder"
    using stops_fail st nf completed_control[of new] by metis
  have c: "\<forall>p\<in>set (drop (length (completed new)) phaseOrder). Publish (completionTopic p) None \<notin> set new"
    using stops_fail st nf completed_control[of new] in_control[of "Publish _ None" new]
    by (metis isControl.simps(1))
  have d: "\<forall>a. Invoke ''initError'' a \<notin> set new"
    using stops_no_initError st in_control[of "Invoke ''initError'' _" new] by simp
  have e: "\<forall>x. Publish APP_INIT_ERROR x \<notin> set new"
    using stops_no_initError st in_control[of "Publish APP_INIT_ERROR _" new] by simp
  from run a b c d e show ?thesis unfolding ne by blast
qed

text \<open>
  C3 at a run that requires a user when nobody is logged in: \<open>ensureAuthenticatedUser\<close>
  rejects with a redirect error inside the auth handler.
\<close>

theorem redirect_stops_silently_witness:
  "\<not> nullish requireUserOptions
   \<and> trySequence demoCollab requireUserOptions (start JNull) =
       (Throws redirectError, \<lparr>trace = redirectTrace, ext = JNull\<rparr>)
   \<and> truthy (readProp redirectError ''isRedirecting'')
   \<and> await (initialize demoCollab [requireUserOptions]) (start JNull) =
       (Returns JUndefined, \<lparr>trace = redirectTrace, ext = JNull\<rparr>)
   \<and> published redirectTrace = completions [PubSub, Config, Logging]
   \<and> completed redirectTrace = [PubSub, Config, Logging]
   \<and> Publish APP_AUTH_INITIALIZED None \<notin> set redirectTrace
   \<and> Publish APP_READY None \<notin> set redirectTrace
   \<and> Invoke ''initError'' [redirectError] \<notin> set redirectTrace
   \<and> Publish APP_INIT_ERROR (Some redirectError) \<notin> set redirectTrace"
proof -
  have a: "\<not> nullish requireUserOptions" by (simp add: requireUserOptions_def)
  have m: "truthy (readProp redirectError ''isRedirecting'')" by (simp add: redirectError_def)
  have b: "published redirectTrace = completions [PubSub, Config, Logging]"
    "completed redirectTrace = [PubSub, Config, Logging]"
    "Publish APP_AUTH_INITIALIZED None \<notin> set redirectTrace"
    "Publish APP_READY None \<notin> set redirectTrace"
    "Invoke ''initError'' [redirectError] \<notin> set redirectTrace"
    "Publish APP_INIT_ERROR (Some redirectError) \<notin> set redirectTrace"
    by (simp_all add: trace_defs)
  show ?thesis
    using redirect_stops_silently [OF a demo_redirect_try m] a m b demo_redirect_try by simp
qed

text \<open>
  C4, as amended. If the \<open>try\<close> block throws a value that is neither \<open>null\<close> nor
  \<open>undefined\<close> and whose \<open>isRedirecting\<close> property is not truthy, then the error handler
  of the table, when it is a function, is called with exactly that value, and it is never
  called with anything else; if the await on it returns, \<open>initialize\<close> resolves and
  \<open>APP.INIT_ERROR\<close> is published after that call, once, with the value as payload, and if
  it does not return, \<open>APP.INIT_ERROR\<close> is not published; in both cases the completion
  topics published are those of the phases before the failing one, and neither the failing
  phase's topic nor any later one is published.
\<close>

theorem error_is_reported:
  assumes nn: "\<not> nullish options"
    and thr: "trySequence c options s = (Throws v, s1)"
    and nv: "\<not> nullish v"
    and nm: "\<not> truthy (readProp v ''isRedirecting'')"
    and run: "await (initialize c [options]) s = (r, s')"
  shows "(callable (readProp (handlersFor options) ''initError'') \<longrightarrow>
            Invoke ''initError'' [v] \<in> set (newEvents s s'))
       \<and> (\<forall>a. Invoke ''initError'' a \<in> set (newEvents s s') \<longrightarrow> a = [v])
       \<and> (Resolved ''initError'' \<in> set (newEvents s s') \<longrightarrow>
            r = Returns JUndefined \<and>
            precedes (Invoke ''initError'' [v]) (Publish APP_INIT_ERROR (Some v)) (newEvents s s'))
       \<and> published (newEvents s s') =
            completions (completed (newEvents s s')) @
            (if Resolved ''initError'' \<in> set (newEvents s s')
             then [Publish APP_INIT_ERROR (Some v)] else [])
       \<and> completed (newEvents s s') \<noteq> phaseOrder
       \<and> (\<forall>p\<in>set (drop (length (completed (newEvents s s'))) phaseOrder).
             Publish (completionTopic p) None \<notin> set (newEvents s s'))"
proof -
  let ?exp = "expected (requireUserFor options) (hydrateUserFor options)"
  let ?I = "Invoke ''initError'' [v]" and ?R = "Resolved ''initError''"
  let ?P = "Publish APP_INIT_ERROR (Some v)"
  from caught_control[OF nn thr nv nm run] obtain n1 n2 rh s2 where
    n1: "trace s1 = trace s @ n1" and tr: "trace s' = trace s @ n1 @ n2"
    and st: "control n1 \<in> set (stops (requireUserFor options) (hydrateUserFor options))"
    and nf: "control n1 \<noteq> ?exp"
    and h: "callHandler c (handlersFor options) ''initError'' [v] s1 = (rh, s2)"
    and sub: "set (newEvents s1 s2) \<subseteq> set n2"
    and alt: "(r = Returns JUndefined \<and> isReturns rh \<and> control n2 = [?I, ?R, ?P])
         \<or> (r = rh \<and> \<not> isReturns rh \<and> (control n2 = [] \<or> control n2 = [?I]))"
    by blast
  let ?new = "n1 @ n2"
  have ne: "newEvents s s' = ?new" using tr by (simp add: newEvents_def)
  have t2: "control n2 = [?I, ?R, ?P] \<or> control n2 = [] \<or> control n2 = [?I]" using alt by blast
  have no1: "(\<forall>a. Invoke ''initError'' a \<notin> set (control n1))" "?R \<notin> set (control n1)"
      "\<forall>x. Publish APP_INIT_ERROR x \<notin> set (control n1)"
    using stops_no_initError st by blast+
  have inI: "Invoke ''initError'' a \<in> set ?new \<longleftrightarrow> Invoke ''initError'' a \<in> set (control n2)" for a
    using no1(1) in_control[of "Invoke ''initError'' a" n1] in_control[of "Invoke ''initError'' a" n2]
    by auto
  have inR: "?R \<in> set ?new \<longleftrightarrow> ?R \<in> set (control n2)"
    using no1(2) in_control[of ?R n1] in_control[of ?R n2] by auto
  define hasR where "hasR = (?R \<in> set ?new)"
  have Riff: "hasR \<longleftrightarrow> control n2 = [?I, ?R, ?P]"
    unfolding hasR_def by (subst inR) (use t2 in auto)
  have comp: "completed ?new = completed (control n1)"
  proof -
    have "Resolved (handlerKey p) \<notin> set (control n2)" for p
      using t2 handlerKey_not_initError[of p] by auto
    then have "completed (control n1 @ control n2) = completed (control n1)"
      by (rule completed_append_other)
    then show ?thesis using completed_control[of ?new] by simp
  qed
  have pub2: "published (control n2) = (if hasR then [?P] else [])"
    using t2 by (auto simp: Riff published_def)
  have a: "callable (readProp (handlersFor options) ''initError'') \<longrightarrow> ?I \<in> set ?new"
    using callHandler_callable[OF _ handlersFor_not_nullish h] sub by auto
  have b: "\<forall>a. Invoke ''initError'' a \<in> set ?new \<longrightarrow> a = [v]"
  proof (intro allI impI)
    fix a assume "Invoke ''initError'' a \<in> set ?new"
    then have "Invoke ''initError'' a \<in> set (control n2)" by (simp only: inI)
    with t2 show "a = [v]" by auto
  qed
  have c: "?R \<in> set ?new \<longrightarrow> r = Returns JUndefined \<and> precedes ?I ?P ?new"
  proof
    assume "?R \<in> set ?new"
    then have c2: "control n2 = [?I, ?R, ?P]" using Riff by (simp only: hasR_def)
    with alt have r: "r = Returns JUndefined" by auto
    have "precedes ?I ?P (control n2)" by (simp add: c2)
    then have "precedes ?I ?P (control n1 @ control n2)" by (rule precedes_append2)
    then have "precedes ?I ?P (filter isControl ?new)" by (simp add: control_def)
    then have "precedes ?I ?P ?new" by (rule precedes_filter)
    with r show "r = Returns JUndefined \<and> precedes ?I ?P ?new" ..
  qed
  have d: "published ?new = completions (completed ?new) @ (if ?R \<in> set ?new then [?P] else [])"
  proof -
    have "published ?new = published (control n1) @ published (control n2)"
      by (simp add: published_control)
    also have "published (control n1) = completions (completed (control n1))"
      using stops_published st by blast
    finally show ?thesis unfolding comp pub2 hasR_def .
  qed
  have e: "completed ?new \<noteq> phaseOrder"
    using stops_fail st nf by (simp add: comp)
  have f: "\<forall>p\<in>set (drop (length (completed ?new)) phaseOrder). Publish (completionTopic p) None \<notin> set ?new"
  proof
    fix p assume p: "p \<in> set (drop (length (completed ?new)) phaseOrder)"
    then have "Publish (completionTopic p) None \<notin> set (control n1)"
      using stops_fail st nf by (simp add: comp)
    moreover have "Publish (completionTopic p) None \<notin> set (control n2)"
      using t2 by auto
    ultimately show "Publish (completionTopic p) None \<notin> set ?new"
      using in_control[of "Publish (completionTopic p) None" n1]
        in_control[of "Publish (completionTopic p) None" n2] by simp
  qed
  from a b c d e f show ?thesis unfolding ne by blast
qed

text \<open>
  C4, as amended, at a run whose analytics handler rejects with a string.
\<close>

theorem error_is_reported_witness:
  "\<not> nullish failingAnalyticsOptions
   \<and> trySequence demoCollab failingAnalyticsOptions (start demoUser) =
       (Throws (JStr ''boom''), \<lparr>trace = failedAnalyticsTrace, ext = demoUser\<rparr>)
   \<and> \<not> nullish (JStr ''boom'')
   \<and> \<not> truthy (readProp (JStr ''boom'') ''isRedirecting'')
   \<and> await (initialize demoCollab [failingAnalyticsOptions]) (start demoUser) =
       (Returns JUndefined, \<lparr>trace = reportedTrace, ext = demoUser\<rparr>)
   \<and> callable (readProp (handlersFor failingAnalyticsOptions) ''initError'')
   \<and> Invoke ''initError'' [JStr ''boom''] \<in> set reportedTrace
   \<and> precedes (Invoke ''initError'' [JStr ''boom''])
        (Publish APP_INIT_ERROR (Some (JStr ''boom''))) reportedTrace
   \<and> published reportedTrace =
       completions [PubSub, Config, Logging, Auth] @ [Publish APP_INIT_ERROR (Some (JStr ''boom''))]"
proof -
  have a: "\<not> nullish failingAnalyticsOptions" by (simp add: failingAnalyticsOptions_def)
  have c: "callable (readProp (handlersFor failingAnalyticsOptions) ''initError'')"
    by (simp add: failingAnalyticsOptions_def handlersFor_def applyOverrideHandlers_def
          dflt_def callable_def)
  have b: "Invoke ''initError'' [JStr ''boom''] \<in> set reportedTrace"
    "precedes (Invoke ''initError'' [JStr ''boom''])
        (Publish APP_INIT_ERROR (Some (JStr ''boom''))) reportedTrace"
    "published reportedTrace =
       completions [PubSub, Config, Logging, Auth] @ [Publish APP_INIT_ERROR (Some (JStr ''boom''))]"
    by (simp_all add: trace_defs)
  show ?thesis
    using error_is_reported [OF a demo_failing_try _ _ demo_failing_run]
      a b c demo_failing_try demo_failing_run by simp
qed

text \<open>
  C4 as stated fails: a \<open>pubSub\<close> handler throws \<open>null\<close>, whose redirect marker is not
  truthy; the default error handler is in the table, but the run ends with the call of
  the \<open>pubSub\<close> handler as its only event: the error handler is not called and
  \<open>APP.INIT_ERROR\<close> is not published.
\<close>

theorem thrown_null_is_not_reported:
  "trySequence demoCollab nullThrowingOptions (start demoUser) =
       (Throws JNull, \<lparr>trace = [Invoke ''pubSub'' []], ext = demoUser\<rparr>)
   \<and> \<not> truthy (readProp JNull ''isRedirecting'')
   \<and> callable (readProp (handlersFor nullThrowingOptions) ''initError'')
   \<and> await (initialize demoCollab [nullThrowingOptions]) (start demoUser) =
       (Throws typeError, \<lparr>trace = [Invoke ''pubSub'' []], ext = demoUser\<rparr>)"
proof -
  have c: "callable (readProp (handlersFor nullThrowingOptions) ''initError'')"
    by (simp add: nullThrowingOptions_def handlersFor_def applyOverrideHandlers_def
          dflt_def callable_def)
  show ?thesis using c demo_null_try demo_null_run by simp
qed

text \<open>
  C5, as amended. On an options record, the promise of \<open>initialize\<close> is rejected in two
  cases only: the \<open>try\<close> block threw \<open>null\<close> or \<open>undefined\<close> (reading \<open>isRedirecting\<close> of it
  throws the type error that \<open>initialize\<close> rejects with), or the value thrown was not a
  redirect and the call of the error handler threw (\<open>initialize\<close> rejects with what it
  threw). For every other thrown value, and an error handler that does not throw,
  \<open>initialize\<close> does not reject.
\<close>

theorem initialize_rejects_only_when:
  assumes nn: "\<not> nullish options"
    and run: "await (initialize c [options]) s = (Throws x, s')"
  shows "\<exists>v s1. trySequence c options s = (Throws v, s1) \<and>
           ((nullish v \<and> x = typeError \<and> s' = s1) \<or>
            (\<not> nullish v \<and> \<not> truthy (readProp v ''isRedirecting'') \<and>
             callHandler c (handlersFor options) ''initError'' [v] s1 = (Throws x, s')))"
  using nn run
proof (cases rule: run_cases)
  case (caught e s1 rc)
  from caught(2) show ?thesis
  proof (cases rule: initCatch_cases)
    case nullish
    with caught show ?thesis by auto
  next
    case redirect
    with caught show ?thesis by auto
  next
    case (reported s2 v)
    with caught show ?thesis by auto
  next
    case (failed rh)
    with caught show ?thesis by (cases rh) auto
  qed
qed simp_all

text \<open>
  C5, as amended, at the run whose \<open>pubSub\<close> handler throws \<open>null\<close>.
\<close>

theorem initialize_rejects_only_when_witness:
  "\<not> nullish nullThrowingOptions
   \<and> await (initialize demoCollab [nullThrowingOptions]) (start demoUser) =
       (Throws typeError, \<lparr>trace = [Invoke ''pubSub'' []], ext = demoUser\<rparr>)
   \<and> trySequence demoCollab nullThrowingOptions (start demoUser) =
       (Throws JNull, \<lparr>trace = [Invoke ''pubSub'' []], ext = demoUser\<rparr>)
   \<and> nullish JNull"
proof -
  have a: "\<not> nullish nullThrowingOptions" by (simp add: nullThrowingOptions_def)
  show ?thesis
    using initialize_rejects_only_when [OF a demo_null_run] a demo_null_try demo_null_run by simp
qed

text \<open>
  C5 as stated fails: with an error-handler override that rejects, \<open>initialize\<close> itself
  rejects, with the value the override rejected with, and \<open>APP.INIT_ERROR\<close> is not
  published.
\<close>

theorem initialize_rejects_when_error_handler_rejects:
  "await (initialize demoCollab [failingErrorHandlerOptions]) (start demoUser) =
     (Throws (JStr ''boom''), \<lparr>trace = unreportedTrace, ext = demoUser\<rparr>)"
  by (rule demo_unreported_run)

section \<open>\<open>initialize\<close>: the wiring of the auth phase\<close>

text \<open>
  C9. Whenever the sequence reaches the wiring of the auth phase, in a state \<open>s3\<close> where
  the logging service and a configuration \<open>cfg\<close> can be read, it runs the auth
  collaborator's \<open>configureAuth\<close> in that state on one argument \<open>a\<close>, the value of the
  object literal there, whose \<open>logoutUrl\<close> is \<open>cfg.LOGIN_URL\<close>, the same value as its
  \<open>loginUrl\<close>: the sequence goes on from the state \<open>configureAuth\<close> leaves when it
  returns, and stops with what it throws when it throws. And in every run of
  \<open>initialize\<close> on an options record, every call of \<open>configureAuth\<close> in the trace has
  exactly one argument, whose \<open>loginUrl\<close> and \<open>logoutUrl\<close> are both the \<open>LOGIN_URL\<close> of a
  configuration handed out by the store.
\<close>

theorem configureAuth_gets_LOGIN_URL_as_logoutUrl:
  fixes s3 :: "'w sys"
  shows
  "(beforeAuth c ls h s = (Returns x, s3) \<and>
    getLoggingService c (ext s3) = Returns logger \<and>
    getConfig c (ext s3) = Returns cfg \<and> \<not> nullish cfg \<longrightarrow>
      (\<exists>a. authOptions c s3 = (Returns a, s3)
         \<and> readProp a ''loginUrl'' = readProp cfg ''LOGIN_URL''
         \<and> readProp a ''logoutUrl'' = readProp cfg ''LOGIN_URL''
         \<and> initSequence c ls an rq hy msgs h s =
             (case configureAuth c [a] (ext s3) of
                (Returns y, w4) \<Rightarrow>
                  fromAuthHandler c an rq hy msgs h
                    \<lparr>trace = trace s3 @ [Call ''configureAuth'' [a], Returned ''configureAuth''],
                     ext = w4\<rparr>
              | (Throws e, w4) \<Rightarrow>
                  (Throws e, \<lparr>trace = trace s3 @ [Call ''configureAuth'' [a]], ext = w4\<rparr>)
              | (Never, w4) \<Rightarrow>
                  (Never, \<lparr>trace = trace s3 @ [Call ''configureAuth'' [a]], ext = w4\<rparr>))))
   \<and> (\<not> nullish options \<and> await (initialize c [options]) s0 = (r, s1) \<longrightarrow>
       (\<forall>args. Call ''configureAuth'' args \<in> set (newEvents s0 s1) \<longrightarrow>
          (\<exists>a w cfg. args = [a] \<and> getConfig c w = Returns cfg \<and>
             readProp a ''loginUrl'' = readProp cfg ''LOGIN_URL'' \<and>
             readProp a ''logoutUrl'' = readProp cfg ''LOGIN_URL'')))"
proof (intro conjI impI allI)
  assume a: "beforeAuth c ls h s = (Returns x, s3) \<and>
    getLoggingService c (ext s3) = Returns logger \<and>
    getConfig c (ext s3) = Returns cfg \<and> \<not> nullish cfg"
  let ?a = "JObj [(''loggingService'', logger),
                (''appBaseUrl'', readProp cfg ''BASE_URL''),
                (''lmsBaseUrl'', readProp cfg ''LMS_BASE_URL''),
                (''loginUrl'', readProp cfg ''LOGIN_URL''),
                (''logoutUrl'', readProp cfg ''LOGIN_URL''),
                (''refreshAccessTokenEndpoint'', readProp cfg ''REFRESH_ACCESS_TOKEN_ENDPOINT''),
                (''accessTokenCookieName'', readProp cfg ''ACCESS_TOKEN_COOKIE_NAME''),
                (''csrfTokenApiPath'', readProp cfg ''CSRF_TOKEN_API_PATH'')]"
  from a have ao: "authOptions c s3 = (Returns ?a, s3)" by (simp add: authOptions_eval)
  have run: "initSequence c ls an rq hy msgs h s =
      andThen (external ''configureAuth'' (configureAuth c) [?a])
        (\<lambda>_. fromAuthHandler c an rq hy msgs h) s3"
    using a ao by (simp add: initSequence_split andThen_def)
  have "initSequence c ls an rq hy msgs h s =
             (case configureAuth c [?a] (ext s3) of
                (Returns y, w4) \<Rightarrow>
                  fromAuthHandler c an rq hy msgs h
                    \<lparr>trace = trace s3 @ [Call ''configureAuth'' [?a], Returned ''configureAuth''],
                     ext = w4\<rparr>
              | (Throws e, w4) \<Rightarrow>
                  (Throws e, \<lparr>trace = trace s3 @ [Call ''configureAuth'' [?a]], ext = w4\<rparr>)
              | (Never, w4) \<Rightarrow>
                  (Never, \<lparr>trace = trace s3 @ [Call ''configureAuth'' [?a]], ext = w4\<rparr>))"
    unfolding run by (simp add: andThen_def external_eval split: prod.splits outcome.splits)
  with ao show "\<exists>a. authOptions c s3 = (Returns a, s3)
         \<and> readProp a ''loginUrl'' = readProp cfg ''LOGIN_URL''
         \<and> readProp a ''logoutUrl'' = readProp cfg ''LOGIN_URL''
         \<and> initSequence c ls an rq hy msgs h s =
             (case configureAuth c [a] (ext s3) of
                (Returns y, w4) \<Rightarrow>
                  fromAuthHandler c an rq hy msgs h
                    \<lparr>trace = trace s3 @ [Call ''configureAuth'' [a], Returned ''configureAuth''],
                     ext = w4\<rparr>
              | (Throws e, w4) \<Rightarrow>
                  (Throws e, \<lparr>trace = trace s3 @ [Call ''configureAuth'' [a]], ext = w4\<rparr>)
              | (Never, w4) \<Rightarrow>
                  (Never, \<lparr>trace = trace s3 @ [Call ''configureAuth'' [a]], ext = w4\<rparr>))"
    by (intro exI[of _ ?a]) simp
next
  fix args
  assume run: "\<not> nullish options \<and> await (initialize c [options]) s0 = (r, s1)"
    and mem: "Call ''configureAuth'' args \<in> set (newEvents s0 s1)"
  have "emits (authCallOK c) (await (initialize c [options]))"
    using run unfolding initialize_run[of options c, OF conjunct1[OF run]] trySequence_def
    by (intro emits_andThen emits_tryCatch emits_initSequence emits_initCatch emits_ret)
  with run obtain new where "trace s1 = trace s0 @ new" "list_all (authCallOK c) new"
    unfolding emits_def by blast
  with mem have "authCallOK c (Call ''configureAuth'' args)"
    by (simp add: newEvents_def list_all_iff)
  then show "\<exists>a w cfg. args = [a] \<and> getConfig c w = Returns cfg \<and>
             readProp a ''loginUrl'' = readProp cfg ''LOGIN_URL'' \<and>
             readProp a ''logoutUrl'' = readProp cfg ''LOGIN_URL''"
    unfolding authCallOK_def loginAsLogout_def by blast
qed

text \<open>
  C9 with a configuration whose \<open>LOGOUT_URL\<close> differs from its \<open>LOGIN_URL\<close> and an auth
  service whose \<open>configure\<close> throws the \<open>logoutUrl\<close> it receives: the run stops at that
  call with the login URL as the thrown value.
\<close>

theorem configureAuth_gets_LOGIN_URL_as_logoutUrl_witness:
  "beforeAuth refusingAuth NewRelicLoggingService (handlersFor (JObj [])) (start demoUser) =
     (Returns JUndefined, \<lparr>trace = untilAuthWiring, ext = demoUser\<rparr>)
   \<and> getLoggingService refusingAuth demoUser = Returns (JStr ''logger'')
   \<and> getConfig refusingAuth demoUser = Returns demoConfig
   \<and> \<not> nullish demoConfig
   \<and> readProp demoConfig ''LOGIN_URL'' = JStr ''https://lms.test/login''
   \<and> readProp demoConfig ''LOGOUT_URL'' = JStr ''https://lms.test/logout''
   \<and> authOptions refusingAuth \<lparr>trace = untilAuthWiring, ext = demoUser\<rparr> =
       (Returns demoAuthOptions, \<lparr>trace = untilAuthWiring, ext = demoUser\<rparr>)
   \<and> readProp demoAuthOptions ''logoutUrl'' = JStr ''https://lms.test/login''
   \<and> configureAuth refusingAuth [demoAuthOptions] demoUser =
       (Throws (JStr ''https://lms.test/login''), demoUser)
   \<and> trySequence refusingAuth (JObj []) (start demoUser) =
       (Throws (JStr ''https://lms.test/login''),
        \<lparr>trace = untilAuthWiring @ [Call ''configureAuth'' [demoAuthOptions]], ext = demoUser\<rparr>)"
proof -
  have f: "getLoggingService refusingAuth demoUser = Returns (JStr ''logger'')"
    "getConfig refusingAuth demoUser = Returns demoConfig"
    "\<not> nullish demoConfig"
    "readProp demoConfig ''LOGIN_URL'' = JStr ''https://lms.test/login''"
    "readProp demoConfig ''LOGOUT_URL'' = JStr ''https://lms.test/logout''"
    "readProp demoAuthOptions ''logoutUrl'' = JStr ''https://lms.test/login''"
    "configureAuth refusingAuth [demoAuthOptions] demoUser =
       (Throws (JStr ''https://lms.test/login''), demoUser)"
    by (simp_all add: demoConfig_def demoAuthOptions_def arg_def)
  have ao: "authOptions refusingAuth \<lparr>trace = untilAuthWiring, ext = demoUser\<rparr> =
       (Returns demoAuthOptions, \<lparr>trace = untilAuthWiring, ext = demoUser\<rparr>)"
    by (simp add: authOptions_eval[where logger = "JStr ''logger''" and cfg = demoConfig]
          demoConfig_def demoAuthOptions_def)
  show ?thesis
    using configureAuth_gets_LOGIN_URL_as_logoutUrl
      [where c = refusingAuth and ls = NewRelicLoggingService and h = "handlersFor (JObj [])"
         and s = "start demoUser" and x = JUndefined
         and ?s3.0 = "\<lparr>trace = untilAuthWiring, ext = demoUser\<rparr>"
         and logger = "JStr ''logger''" and cfg = demoConfig]
      f ao demo_refusing_before demo_refusing_try
    by simp
qed

end
